theory Spec2Isabelle
  imports Main "HOL-Library.Sublist" "HOL-Library.AList"
begin

section \<open>JavaScript strings\<close>

text \<open>
  A JavaScript string is modelled as a \<^typ>\<open>string\<close>, one \<^typ>\<open>char\<close> per code unit
  (code units below 256). The operations below are the ones the sources call on
  strings; the case mappings change the ASCII letters only (every pattern, keyword and
  method name they are compared with is ASCII).
\<close>

definition upper_letters :: string where
  "upper_letters = ''ABCDEFGHIJKLMNOPQRSTUVWXYZ''"

definition lower_letters :: string where
  "lower_letters = ''abcdefghijklmnopqrstuvwxyz''"

definition lower_char :: "char \<Rightarrow> char" where
  "lower_char c = (case map_of (zip upper_letters lower_letters) c of Some d \<Rightarrow> d | None \<Rightarrow> c)"

definition upper_char :: "char \<Rightarrow> char" where
  "upper_char c = (case map_of (zip lower_letters upper_letters) c of Some d \<Rightarrow> d | None \<Rightarrow> c)"

text \<open>\<^verbatim>\<open>s.toLowerCase()\<close> and \<^verbatim>\<open>s.toUpperCase()\<close>.\<close>

definition toLowerCase :: "string \<Rightarrow> string" where
  "toLowerCase s = map lower_char s"

definition toUpperCase :: "string \<Rightarrow> string" where
  "toUpperCase s = map upper_char s"

text \<open>\<^verbatim>\<open>s.startsWith(p)\<close>, \<^verbatim>\<open>s.endsWith(p)\<close> and \<^verbatim>\<open>s.includes(p)\<close>.\<close>

definition startsWith :: "string \<Rightarrow> string \<Rightarrow> bool" where
  "startsWith s p = prefix p s"

definition endsWith :: "string \<Rightarrow> string \<Rightarrow> bool" where
  "endsWith s p = suffix p s"

fun includes_str :: "string \<Rightarrow> string \<Rightarrow> bool" where
  "includes_str [] p = (p = [])"
| "includes_str (c # cs) p = (prefix p (c # cs) \<or> includes_str cs p)"

text \<open>\<^verbatim>\<open>s.split(d)\<close> for a one-character separator: never empty, \<^verbatim>\<open>''.split('.')\<close> is \<^verbatim>\<open>['']\<close>.\<close>

fun split_on :: "char \<Rightarrow> string \<Rightarrow> string list" where
  "split_on d [] = [[]]"
| "split_on d (c # cs) =
     (if c = d then [] # split_on d cs
      else (c # hd (split_on d cs)) # tl (split_on d cs))"

text \<open>\<^verbatim>\<open>xs.join(sep)\<close>.\<close>

fun join :: "string \<Rightarrow> string list \<Rightarrow> string" where
  "join sep [] = []"
| "join sep [x] = x"
| "join sep (x # y # ys) = x @ sep @ join sep (y # ys)"

text \<open>\<^verbatim>\<open>s.trim()\<close>: white space is tab, line feed, vertical tab, form feed, carriage
  return, space and the no-break space.\<close>

definition is_space :: "char \<Rightarrow> bool" where
  "is_space c = (c \<in> set [CHR 0x09, CHR 0x0A, CHR 0x0B, CHR 0x0C, CHR 0x0D, CHR 0x20, CHR 0xA0])"

definition trim :: "string \<Rightarrow> string" where
  "trim s = rev (dropWhile is_space (rev (dropWhile is_space s)))"

text \<open>A string is truthy when it is not empty; an absent optional string is falsy.\<close>

definition truthy :: "string option \<Rightarrow> bool" where
  "truthy v = (case v of None \<Rightarrow> False | Some s \<Rightarrow> s \<noteq> [])"

text \<open>A case-insensitive anchored pattern \<^verbatim>\<open>/^word$/i\<close> tested on \<open>s\<close>, and an
  unanchored one \<^verbatim>\<open>/word/i\<close>; \<open>word\<close> is a literal with no metacharacter.\<close>

definition test_exact_ci :: "string \<Rightarrow> string \<Rightarrow> bool" where
  "test_exact_ci word s = (toLowerCase s = toLowerCase word)"

definition test_contains_ci :: "string \<Rightarrow> string \<Rightarrow> bool" where
  "test_contains_ci word s = includes_str (toLowerCase s) (toLowerCase word)"

definition test_prefix_ci :: "string \<Rightarrow> string \<Rightarrow> bool" where
  "test_prefix_ci word s = prefix (toLowerCase word) (toLowerCase s)"

section \<open>Regular expressions\<close>

text \<open>
  Two regular expressions of the sources are run by a matcher: the role pattern of
  the Express extractor, and the pattern that \<^verbatim>\<open>matchesRoutePattern\<close> compiles from a
  string. Both are sequences of quantified single-character atoms, with \<^verbatim>\<open>^\<close> and
  \<^verbatim>\<open>$\<close>. The backtracking matcher tries the alternatives of each item in the order
  of the JavaScript engine (a greedy quantifier tries the longest repetition first, a
  lazy one the shortest).
\<close>

datatype cclass = Lit char | AnyOf "char list" | NoneOf "char list"

datatype quant = Once | Optional | ZeroOrMore | OneOrMore

datatype item = Bol | Eol | Atom cclass quant bool

fun cclass_ok :: "cclass \<Rightarrow> char \<Rightarrow> bool" where
  "cclass_ok (Lit x) c = (c = x)"
| "cclass_ok (AnyOf xs) c = (c \<in> set xs)"
| "cclass_ok (NoneOf xs) c = (c \<notin> set xs)"

text \<open>The ways one item can match at the head of \<open>s\<close>, as (matched, rest), in the
  order the engine tries them. \<open>at_start\<close> says that nothing of the input precedes \<open>s\<close>.\<close>

definition repeat_splits :: "cclass \<Rightarrow> nat \<Rightarrow> bool \<Rightarrow> string \<Rightarrow> (string \<times> string) list" where
  "repeat_splits k lo greedy s =
     (let n = length (takeWhile (cclass_ok k) s);
          counts = [lo..<Suc n]
      in map (\<lambda>i. (take i s, drop i s)) (if greedy then rev counts else counts))"

fun item_splits :: "item \<Rightarrow> bool \<Rightarrow> string \<Rightarrow> (string \<times> string) list" where
  "item_splits Bol at_start s = (if at_start then [([], s)] else [])"
| "item_splits Eol at_start s = (if s = [] then [([], s)] else [])"
| "item_splits (Atom k Once greedy) at_start s =
     (case s of [] \<Rightarrow> [] | c # r \<Rightarrow> if cclass_ok k c then [([c], r)] else [])"
| "item_splits (Atom k Optional greedy) at_start s =
     (let one = (case s of [] \<Rightarrow> [] | c # r \<Rightarrow> if cclass_ok k c then [([c], r)] else [])
      in if greedy then one @ [([], s)] else ([], s) # one)"
| "item_splits (Atom k ZeroOrMore greedy) at_start s = repeat_splits k 0 greedy s"
| "item_splits (Atom k OneOrMore greedy) at_start s = repeat_splits k 1 greedy s"

text \<open>The item of a literal character.\<close>

definition lit :: "char \<Rightarrow> item" where
  "lit c = Atom (Lit c) Once True"

fun first_some :: "'a option list \<Rightarrow> 'a option" where
  "first_some [] = None"
| "first_some (None # xs) = first_some xs"
| "first_some (Some y # xs) = Some y"

text \<open>Matching the items in sequence from the head of \<open>s\<close>: the text each item matched,
  for the first alternative that succeeds.\<close>

fun seq_match :: "item list \<Rightarrow> bool \<Rightarrow> string \<Rightarrow> string list option" where
  "seq_match [] at_start s = Some []"
| "seq_match (i # is) at_start s =
     first_some (map (\<lambda>(m, r). map_option (\<lambda>ms. m # ms) (seq_match is (at_start \<and> m = []) r))
                     (item_splits i at_start s))"

text \<open>The search of \<^verbatim>\<open>regex.exec\<close>: the leftmost position where the sequence matches.\<close>

fun regex_search :: "item list \<Rightarrow> bool \<Rightarrow> string \<Rightarrow> string list option" where
  "regex_search items at_start [] = seq_match items at_start []"
| "regex_search items at_start (c # r) =
     (case seq_match items at_start (c # r) of
        Some ms \<Rightarrow> Some ms
      | None \<Rightarrow> regex_search items False r)"

definition regex_test :: "item list \<Rightarrow> string \<Rightarrow> bool" where
  "regex_test items s = (regex_search items True s \<noteq> None)"

subsection \<open>Compiling a pattern string\<close>

text \<open>
  \<^verbatim>\<open>new RegExp(source)\<close> for the sources that \<^verbatim>\<open>matchesRoutePattern\<close> builds: literal
  characters, a backslash before a syntax character (an identity escape), the
  quantifiers \<^verbatim>\<open>*\<close> and \<^verbatim>\<open>?\<close> with their lazy forms, and the assertions \<^verbatim>\<open>^\<close> and
  \<^verbatim>\<open>$\<close>. A quantifier with nothing to repeat is the SyntaxError the constructor
  throws. Any other construct (a class, a group, an alternative, \<^verbatim>\<open>.\<close>, \<^verbatim>\<open>+\<close>, a
  brace, another escape) is outside this fragment and reported as \<open>Unsupported\<close>;
  lemma \<open>compile_escaped_supported\<close> shows that \<^verbatim>\<open>matchesRoutePattern\<close> never builds one.
\<close>

datatype compiled = Compiled "item list" | SyntaxError | Unsupported

definition backslash :: char where
  "backslash = CHR 0x5C"

definition syntax_chars :: "char list" where
  "syntax_chars = ''^$.*+?()[]{}|/'' @ [backslash]"

fun take_quant :: "string \<Rightarrow> (quant \<times> bool) \<times> string" where
  "take_quant (c # d # r) =
     (if c = CHR ''*'' \<and> d = CHR ''?'' then ((ZeroOrMore, False), r)
      else if c = CHR ''*'' then ((ZeroOrMore, True), d # r)
      else if c = CHR ''?'' \<and> d = CHR ''?'' then ((Optional, False), r)
      else if c = CHR ''?'' then ((Optional, True), d # r)
      else ((Once, True), c # d # r))"
| "take_quant [c] =
     (if c = CHR ''*'' then ((ZeroOrMore, True), [])
      else if c = CHR ''?'' then ((Optional, True), [])
      else ((Once, True), [c]))"
| "take_quant [] = ((Once, True), [])"

fun add_item :: "item \<Rightarrow> compiled \<Rightarrow> compiled" where
  "add_item i (Compiled is) = Compiled (i # is)"
| "add_item i SyntaxError = SyntaxError"
| "add_item i Unsupported = Unsupported"

lemma take_quant_length: "length (snd (take_quant s)) \<le> length s"
  by (induction s rule: take_quant.induct) auto

function compile :: "string \<Rightarrow> compiled" where
  "compile [] = Compiled []"
| "compile (c # cs) =
     (if c = CHR ''*'' \<or> c = CHR ''?'' then SyntaxError
      else if c = CHR ''^'' then add_item Bol (compile cs)
      else if c = CHR ''$'' then add_item Eol (compile cs)
      else if c = backslash then
        (case cs of
           [] \<Rightarrow> SyntaxError
         | x # r \<Rightarrow>
             if x \<in> set syntax_chars
             then add_item (Atom (Lit x) (fst (fst (take_quant r))) (snd (fst (take_quant r))))
                           (compile (snd (take_quant r)))
             else Unsupported)
      else if c \<in> set ''.+()[]{}|'' then Unsupported
      else add_item (Atom (Lit c) (fst (fst (take_quant cs))) (snd (fst (take_quant cs))))
                    (compile (snd (take_quant cs))))"
  by pat_completeness auto
termination
proof (relation "measure length")
  show "wf (measure length)" by simp
next
  fix c :: char and cs :: string
  show "(cs, c # cs) \<in> measure length" by simp
next
  fix c :: char and cs :: string
  show "(cs, c # cs) \<in> measure length" by simp
next
  fix c x :: char and cs r :: string
  assume "cs = x # r"
  then show "(snd (take_quant r), c # cs) \<in> measure length"
    using take_quant_length[of r] by simp
next
  fix c :: char and cs :: string
  show "(snd (take_quant cs), c # cs) \<in> measure length"
    using take_quant_length[of cs] by simp
qed

text \<open>\<^verbatim>\<open>s.replace(/pat/g, rep)\<close> for a non-empty literal \<open>pat\<close> and a replacement text
  without \<^verbatim>\<open>$\<close>: the leftmost occurrences, not overlapping.\<close>

function replace_all :: "string \<Rightarrow> string \<Rightarrow> string \<Rightarrow> string" where
  "replace_all pat rep [] = []"
| "replace_all pat rep (c # cs) =
     (if pat \<noteq> [] \<and> prefix pat (c # cs)
      then rep @ replace_all pat rep (drop (length pat) (c # cs))
      else c # replace_all pat rep cs)"
  by pat_completeness auto
termination
  by (relation "measure (\<lambda>(pat, rep, s). length s)") auto

section \<open>Data model\<close>

subsection \<open>Enumerations\<close>

text \<open>\<^verbatim>\<open>security-classification.ts\<close>, \<^verbatim>\<open>severity.ts\<close>, \<^verbatim>\<open>endpoint-type.ts\<close>,
  \<^verbatim>\<open>http-method.ts\<close>. The method \<^verbatim>\<open>ALL\<close> is written \<open>ALL'\<close>.\<close>

datatype SecurityClassification = Public | Authenticated | RoleRestricted | PolicyRestricted

datatype Severity = Info | Low | Medium | High | Critical

datatype EndpointType = Express | NestJS | Fastify | Koa

datatype HttpMethod = GET | POST | PUT | DELETE | PATCH | OPTIONS | HEAD | ALL'

text \<open>The string value of each enum member, as template literals and comparisons see it.\<close>

fun method_string :: "HttpMethod \<Rightarrow> string" where
  "method_string GET = ''GET''"
| "method_string POST = ''POST''"
| "method_string PUT = ''PUT''"
| "method_string DELETE = ''DELETE''"
| "method_string PATCH = ''PATCH''"
| "method_string OPTIONS = ''OPTIONS''"
| "method_string HEAD = ''HEAD''"
| "method_string ALL' = ''ALL''"

definition writeMethods :: "HttpMethod list" where
  "writeMethods = [POST, PUT, DELETE, PATCH]"

definition isWriteMethod :: "HttpMethod \<Rightarrow> bool" where
  "isWriteMethod m = (m \<in> set writeMethods)"

subsection \<open>AuthorizationInfo\<close>

text \<open>
  \<^verbatim>\<open>authorization-info.ts\<close>. \<open>AuthEvidence\<close> is the type
  \<^verbatim>\<open>Omit<AuthorizationInfo, 'classification'>\<close> that \<^verbatim>\<open>determineClassification\<close>
  takes; \<open>AuthorizationInfo\<close> extends it with the derived field.
\<close>

record AuthEvidence =
  isAuthenticated :: bool
  isExplicitlyPublic :: bool
  roles :: "string list"
  policies :: "string list"
  middlewareChain :: "string list"
  guardNames :: "string list"

record AuthorizationInfo = AuthEvidence +
  classification :: SecurityClassification

definition createDefaultAuthorizationInfo :: AuthorizationInfo where
  "createDefaultAuthorizationInfo =
     \<lparr> isAuthenticated = False, isExplicitlyPublic = False, roles = [], policies = [],
       middlewareChain = [], guardNames = [], classification = Public \<rparr>"

definition determineClassification :: "'a AuthEvidence_scheme \<Rightarrow> SecurityClassification" where
  "determineClassification auth =
     (if length (policies auth) > 0 then PolicyRestricted
      else if length (roles auth) > 0 then RoleRestricted
      else if isAuthenticated auth then Authenticated
      else Public)"

subsection \<open>Endpoint and Finding\<close>

text \<open>
  \<^verbatim>\<open>source-location.ts\<close>, \<^verbatim>\<open>endpoint.ts\<close>, \<^verbatim>\<open>finding.ts\<close>. Where two interfaces of
  the sources have a field of the same name, the later record's field carries a
  prefix: \<open>finding_location\<close> is \<^verbatim>\<open>Finding.location\<close>.
\<close>

record SourceLocation =
  filePath :: string
  line :: nat
  column :: nat

record Endpoint =
  route :: string
  "method" :: HttpMethod
  handlerName :: string
  controllerName :: "string option"
  type :: EndpointType
  location :: SourceLocation
  authorization :: AuthorizationInfo

record Finding =
  ruleId :: string
  ruleName :: string
  severity :: Severity
  message :: string
  endpoint :: Endpoint
  finding_location :: SourceLocation
  recommendation :: string
  suppressed :: bool
  suppressionReason :: "string option"

text \<open>\<^verbatim>\<open>createFinding\<close> as the rules call it: \<^verbatim>\<open>suppressed\<close> and \<^verbatim>\<open>suppressionReason\<close>
  are not given, so they default to \<^verbatim>\<open>false\<close> and \<^verbatim>\<open>undefined\<close>.\<close>

definition createFinding ::
  "string \<Rightarrow> string \<Rightarrow> Severity \<Rightarrow> string \<Rightarrow> Endpoint \<Rightarrow> SourceLocation \<Rightarrow> string \<Rightarrow> Finding" where
  "createFinding rid rname sev msg ep loc rec =
     \<lparr> ruleId = rid, ruleName = rname, severity = sev, message = msg, endpoint = ep,
       finding_location = loc, recommendation = rec, suppressed = False,
       suppressionReason = None \<rparr>"

text \<open>\<^verbatim>\<open>createEndpoint\<close>: an absent handler name is \<^verbatim>\<open>'anonymous'\<close>, an absent
  authorization the default one.\<close>

definition createEndpoint ::
  "string \<Rightarrow> HttpMethod \<Rightarrow> string option \<Rightarrow> string option \<Rightarrow> EndpointType \<Rightarrow> SourceLocation
     \<Rightarrow> AuthorizationInfo option \<Rightarrow> Endpoint" where
  "createEndpoint r m h c t loc a =
     \<lparr> route = r, method = m,
       handlerName = (case h of None \<Rightarrow> ''anonymous'' | Some n \<Rightarrow> n),
       controllerName = c, type = t, location = loc,
       authorization = (case a of None \<Rightarrow> createDefaultAuthorizationInfo | Some x \<Rightarrow> x) \<rparr>"

section \<open>Route normalisation\<close>

text \<open>\<^verbatim>\<open>path.replace(/\/+/g, '/')\<close>: every maximal run of slashes becomes one slash.\<close>

function collapse_slashes :: "string \<Rightarrow> string" where
  "collapse_slashes [] = []"
| "collapse_slashes (c # cs) =
     (if c = CHR ''/'' then CHR ''/'' # collapse_slashes (dropWhile (\<lambda>d. d = CHR ''/'') cs)
      else c # collapse_slashes cs)"
  by pat_completeness auto
termination
  by (relation "measure length") (auto simp: length_dropWhile_le less_Suc_eq_le)

text \<open>
  \<^verbatim>\<open>normalizePath\<close> is a private method of the Express, the Fastify and the Koa
  discoverer, with the same body in the three classes. Express calls it on the mount
  prefix followed by the route path, Fastify and Koa on the route path (Fastify also on
  the \<^verbatim>\<open>url\<close> of a route object).
\<close>

definition normalizePath :: "string \<Rightarrow> string" where
  "normalizePath path0 =
     (let path1 = (if \<not> startsWith path0 ''/'' then ''/'' @ path0 else path0);
          path2 = collapse_slashes path1
      in if length path2 > 1 \<and> endsWith path2 ''/'' then butlast path2 else path2)"

text \<open>\<^verbatim>\<open>NestJSDiscoverer.buildRoute\<close>; an empty string is falsy.\<close>

definition buildRoute :: "string \<Rightarrow> string \<Rightarrow> string" where
  "buildRoute controllerPath methodPath =
     (let route0 = (if controllerPath \<noteq> []
                    then (if startsWith controllerPath ''/'' then controllerPath
                          else ''/'' @ controllerPath)
                    else ''/'');
          route1 = (if methodPath \<noteq> []
                    then (let normalizedMethodPath =
                                (if startsWith methodPath ''/'' then methodPath
                                 else ''/'' @ methodPath)
                          in if route0 = ''/'' then normalizedMethodPath
                             else route0 @ normalizedMethodPath)
                    else route0);
          route2 = collapse_slashes route1;
          route3 = (if \<not> startsWith route2 ''/'' then ''/'' @ route2 else route2)
      in if length route3 > 1 \<and> endsWith route3 ''/'' then butlast route3 else route3)"

text \<open>
  The pattern \<^verbatim>\<open>^/([^/]+(/[^/]+)*)?$\<close> of the route invariant: \<open>match_segments\<close> is
  \<^verbatim>\<open>[^/]+(/[^/]+)*\<close> up to the end of the string. \<open>route_shape\<close> is the same invariant in
  words: a leading slash, no two slashes in a row, a trailing slash only on the root.
\<close>

fun match_segments :: "string \<Rightarrow> bool" where
  "match_segments [] = False"
| "match_segments [c] = (c \<noteq> CHR ''/'')"
| "match_segments (c # d # r) =
     (c \<noteq> CHR ''/'' \<and> (if d = CHR ''/'' then match_segments r else match_segments (d # r)))"

fun route_regex :: "string \<Rightarrow> bool" where
  "route_regex [] = False"
| "route_regex (c # r) = (c = CHR ''/'' \<and> (r = [] \<or> match_segments r))"

fun no_double_slash :: "string \<Rightarrow> bool" where
  "no_double_slash (c # d # r) = (\<not> (c = CHR ''/'' \<and> d = CHR ''/'') \<and> no_double_slash (d # r))"
| "no_double_slash _ = True"

definition route_shape :: "string \<Rightarrow> bool" where
  "route_shape s =
     (startsWith s ''/'' \<and> no_double_slash s \<and> (if endsWith s ''/'' then s = ''/'' else True))"

section \<open>Mount registry\<close>

text \<open>
  \<^verbatim>\<open>route-group-registry.ts\<close>. A JavaScript \<^verbatim>\<open>Map\<close> iterates in insertion order, so
  each of the two maps is an association list, the keys in the order of their first
  \<^verbatim>\<open>set\<close>; \<open>map_set\<close> is \<^verbatim>\<open>Map.set\<close> and \<^const>\<open>map_of\<close> is \<^verbatim>\<open>Map.get\<close>.
\<close>

record RouteGroup =
  group_prefix :: string
  middlewares :: "string list"
  variableName :: string
  group_filePath :: string

record RouterMount =
  mount_prefix :: string
  routerName :: string

record RouteGroupRegistry =
  groups :: "(string \<times> RouteGroup list) list"
  routerMounts :: "(string \<times> RouterMount list) list"

definition empty_registry :: RouteGroupRegistry where
  "empty_registry = \<lparr> groups = [], routerMounts = [] \<rparr>"

definition makeKey :: "string \<Rightarrow> string \<Rightarrow> string" where
  "makeKey fp v = fp @ ''::'' @ v"

fun map_set :: "string \<Rightarrow> 'v \<Rightarrow> (string \<times> 'v) list \<Rightarrow> (string \<times> 'v) list" where
  "map_set k v [] = [(k, v)]"
| "map_set k v ((k', v') # m) = (if k' = k then (k, v) # m else (k', v') # map_set k v m)"

definition push_at :: "string \<Rightarrow> 'v \<Rightarrow> (string \<times> 'v list) list \<Rightarrow> (string \<times> 'v list) list" where
  "push_at key x m =
     (let m1 = (if map_of m key = None then map_set key [] m else m)
      in case map_of m1 key of None \<Rightarrow> m1 | Some xs \<Rightarrow> map_set key (xs @ [x]) m1)"

definition registerGroup ::
  "RouteGroupRegistry \<Rightarrow> string \<Rightarrow> string \<Rightarrow> string \<Rightarrow> string list \<Rightarrow> RouteGroupRegistry" where
  "registerGroup reg fp v pre mws =
     reg\<lparr> groups := push_at (makeKey fp v)
                        \<lparr> group_prefix = pre, middlewares = mws, variableName = v,
                          group_filePath = fp \<rparr> (groups reg) \<rparr>"

definition registerRouterMount ::
  "RouteGroupRegistry \<Rightarrow> string \<Rightarrow> string \<Rightarrow> string \<Rightarrow> string \<Rightarrow> RouteGroupRegistry" where
  "registerRouterMount reg fp appVariableName pre rn =
     reg\<lparr> routerMounts := push_at (makeKey fp appVariableName)
                              \<lparr> mount_prefix = pre, routerName = rn \<rparr> (routerMounts reg) \<rparr>"

text \<open>\<^verbatim>\<open>groups?.[groups.length - 1]\<close>: the last group of the key, \<^verbatim>\<open>undefined\<close> when the
  key is absent or its array is empty.\<close>

definition getGroup :: "RouteGroupRegistry \<Rightarrow> string \<Rightarrow> string \<Rightarrow> RouteGroup option" where
  "getGroup reg fp v =
     (case map_of (groups reg) (makeKey fp v) of
        None \<Rightarrow> None
      | Some gs \<Rightarrow> if gs = [] then None else Some (last gs))"

text \<open>The loop of \<^verbatim>\<open>getRouterPrefix\<close> over the entries of \<^verbatim>\<open>routerMounts\<close>; the file
  path argument is not read.\<close>

fun scan_mounts :: "(string \<times> RouterMount list) list \<Rightarrow> string \<Rightarrow> string" where
  "scan_mounts [] rn = ''''"
| "scan_mounts ((k, mounts) # rest) rn =
     (case find (\<lambda>m. routerName m = rn) mounts of
        Some mount \<Rightarrow> mount_prefix mount
      | None \<Rightarrow> scan_mounts rest rn)"

definition getRouterPrefix :: "RouteGroupRegistry \<Rightarrow> string \<Rightarrow> string \<Rightarrow> string" where
  "getRouterPrefix reg fp rn = scan_mounts (routerMounts reg) rn"

definition getAllMiddlewares :: "RouteGroupRegistry \<Rightarrow> string \<Rightarrow> string \<Rightarrow> string list" where
  "getAllMiddlewares reg fp v =
     (case getGroup reg fp v of None \<Rightarrow> [] | Some g \<Rightarrow> middlewares g)"

text \<open>For the statements about the lookup: the prefixes of all registered mounts whose
  router identifier is \<open>rn\<close>, whatever file and application variable registered them,
  in the iteration order of the map.\<close>

definition matching_prefixes :: "RouteGroupRegistry \<Rightarrow> string \<Rightarrow> string list" where
  "matching_prefixes reg rn =
     concat (map (\<lambda>(k, mounts). map mount_prefix (filter (\<lambda>m. routerName m = rn) mounts))
                 (routerMounts reg))"

text \<open>The route of an Express endpoint, as \<^verbatim>\<open>processCallExpression\<close> computes it from the
  registry, the file, the caller's name and the route path of the call.\<close>

definition express_fullRoute :: "RouteGroupRegistry \<Rightarrow> string \<Rightarrow> string \<Rightarrow> string \<Rightarrow> string" where
  "express_fullRoute reg fp callerName routePath =
     normalizePath (getRouterPrefix reg fp callerName @ routePath)"

definition clear :: "RouteGroupRegistry \<Rightarrow> RouteGroupRegistry" where
  "clear reg = \<lparr> groups = [], routerMounts = [] \<rparr>"

section \<open>Express authorization extractor\<close>

text \<open>
  \<^verbatim>\<open>express-auth-extractor.ts\<close>. Every pattern of the three tables is a
  case-insensitive word anchored at both ends, but the first authentication pattern,
  \<^verbatim>\<open>/^passport\.authenticate/i\<close>, which is anchored at the start only.
\<close>

datatype name_pattern = Exact string | StartsWith string

fun pattern_test :: "name_pattern \<Rightarrow> string \<Rightarrow> bool" where
  "pattern_test (Exact w) s = test_exact_ci w s"
| "pattern_test (StartsWith w) s = test_prefix_ci w s"

definition AUTH_MIDDLEWARE_PATTERNS :: "name_pattern list" where
  "AUTH_MIDDLEWARE_PATTERNS =
     [StartsWith ''passport.authenticate'', Exact ''jwt'', Exact ''expressjwt'',
      Exact ''requireAuth'', Exact ''ensureAuthenticated'', Exact ''isAuthenticated'',
      Exact ''authenticate'', Exact ''authMiddleware'', Exact ''checkAuth'',
      Exact ''verifyToken'', Exact ''validateToken'', Exact ''bearerToken'', Exact ''auth'',
      Exact ''protected'']"

definition PUBLIC_PATTERNS :: "name_pattern list" where
  "PUBLIC_PATTERNS =
     [Exact ''allowAnonymous'', Exact ''public'', Exact ''skipAuth'', Exact ''noAuth'',
      Exact ''optional'']"

definition ROLE_PATTERNS :: "name_pattern list" where
  "ROLE_PATTERNS =
     [Exact ''requireRole'', Exact ''hasRole'', Exact ''roles'', Exact ''checkRole'',
      Exact ''authorize'', Exact ''can'', Exact ''permit'']"

text \<open>\<^verbatim>\<open>name.split('.').pop()\<close>: the part after the last dot.\<close>

definition matchesPatterns :: "string \<Rightarrow> name_pattern list \<Rightarrow> bool" where
  "matchesPatterns name patterns =
     (let funcName = (if includes_str name ''.'' then last (split_on CHR ''.'' name) else name)
      in list_ex (\<lambda>p. pattern_test p funcName) patterns)"

definition containsAuthKeyword :: "string \<Rightarrow> bool" where
  "containsAuthKeyword name =
     (let keywords = [''auth'', ''jwt'', ''token'', ''session'', ''login'', ''secure''];
          lower = toLowerCase name
      in list_ex (\<lambda>kw. includes_str lower kw) keywords)"

definition sq :: string where
  "sq = [CHR 0x27]"

definition quote_chars :: "char list" where
  "quote_chars = [CHR 0x27, CHR 0x22]"

text \<open>
  The pattern of \<^verbatim>\<open>extractRolesFromMiddleware\<close>, \<^verbatim>\<open>/\(['"]?([^'")\]]+)['"]?\]/i\<close>: an
  opening parenthesis, an optional quote, one or more characters that are no quote,
  no closing parenthesis and no closing bracket (the capture group), an optional quote,
  and a closing bracket. It has no letter, so the flag \<^verbatim>\<open>i\<close> changes nothing.
\<close>

definition role_regex :: "item list" where
  "role_regex =
     [Atom (Lit CHR ''('') Once True,
      Atom (AnyOf quote_chars) Optional True,
      Atom (NoneOf (quote_chars @ '')]'')) OneOrMore True,
      Atom (AnyOf quote_chars) Optional True,
      Atom (Lit CHR '']'') Once True]"

text \<open>\<^verbatim>\<open>roleMatch[1]\<close> is the text of the third item of \<open>role_regex\<close>.\<close>

definition extractRolesFromMiddleware :: "string \<Rightarrow> string list" where
  "extractRolesFromMiddleware middleware =
     (case regex_search role_regex True middleware of
        Some roleMatch \<Rightarrow>
          map (\<lambda>r. filter (\<lambda>c. c \<notin> set quote_chars) (trim r))
              (split_on CHR '','' (roleMatch ! 2))
      | None \<Rightarrow>
          if includes_str middleware ''.''
          then (let parts = split_on CHR ''.'' middleware;
                    lastPart = last parts
                in if \<not> matchesPatterns lastPart AUTH_MIDDLEWARE_PATTERNS then [lastPart] else [])
          else [])"

definition processMiddleware :: "string \<Rightarrow> AuthorizationInfo \<Rightarrow> AuthorizationInfo" where
  "processMiddleware middleware auth =
     (let normalizedName = trim middleware
      in if matchesPatterns normalizedName PUBLIC_PATTERNS
         then auth\<lparr>isExplicitlyPublic := True\<rparr>
         else if matchesPatterns normalizedName AUTH_MIDDLEWARE_PATTERNS
         then auth\<lparr>isAuthenticated := True, guardNames := guardNames auth @ [normalizedName]\<rparr>
         else if matchesPatterns normalizedName ROLE_PATTERNS
         then auth\<lparr>isAuthenticated := True,
                   roles := roles auth @ extractRolesFromMiddleware normalizedName\<rparr>
         else if containsAuthKeyword normalizedName
         then auth\<lparr>isAuthenticated := True, guardNames := guardNames auth @ [normalizedName]\<rparr>
         else auth)"

text \<open>\<^verbatim>\<open>AuthorizationExtractorContext\<close>, the fields the Express extractor reads.\<close>

record AuthorizationExtractorContext =
  isRouter :: "bool option"
  routerMiddlewares :: "string list option"

definition express_extract ::
  "string list \<Rightarrow> AuthorizationExtractorContext option \<Rightarrow> AuthorizationInfo" where
  "express_extract mws context =
     (let allMiddlewares =
            (case context of
               None \<Rightarrow> []
             | Some ctx \<Rightarrow> (case routerMiddlewares ctx of None \<Rightarrow> [] | Some r \<Rightarrow> r)) @ mws;
          auth0 = createDefaultAuthorizationInfo\<lparr>middlewareChain := allMiddlewares\<rparr>;
          auth1 = foldl (\<lambda>a m. processMiddleware m a) auth0 allMiddlewares
      in auth1\<lparr>classification := determineClassification auth1\<rparr>)"

section \<open>NestJS: decorators, authorization extractor, discoverer\<close>

subsection \<open>Syntax nodes\<close>

text \<open>
  The expressions of the TypeScript syntax tree that the decorator code tells apart;
  every other kind of node is \<open>OtherExpression\<close>. A decorator is its expression.
\<close>

datatype Expression =
    Identifier string
  | StringLiteral string
  | NoSubstitutionTemplateLiteral string
  | CallExpression Expression "Expression list"
  | ArrayLiteralExpression "Expression list"
  | PropertyAccessExpression Expression string
  | OtherExpression

type_synonym Decorator = Expression

text \<open>The helpers of \<^verbatim>\<open>source-file-loader.ts\<close>.\<close>

fun getDecoratorName :: "Decorator \<Rightarrow> string option" where
  "getDecoratorName (Identifier t) = Some t"
| "getDecoratorName (CallExpression (Identifier t) args) = Some t"
| "getDecoratorName _ = None"

fun getDecoratorArguments :: "Decorator \<Rightarrow> Expression list" where
  "getDecoratorArguments (CallExpression callee args) = args"
| "getDecoratorArguments _ = []"

fun getStringLiteralValue :: "Expression \<Rightarrow> string option" where
  "getStringLiteralValue (StringLiteral t) = Some t"
| "getStringLiteralValue (NoSubstitutionTemplateLiteral t) = Some t"
| "getStringLiteralValue _ = None"

fun getArrayLiteralElements :: "Expression \<Rightarrow> Expression list" where
  "getArrayLiteralElements (ArrayLiteralExpression elems) = elems"
| "getArrayLiteralElements _ = []"

subsection \<open>Authorization extractor\<close>

text \<open>\<^verbatim>\<open>nestjs-auth-extractor.ts\<close>. The guard patterns are unanchored and
  case-insensitive.\<close>

definition AUTH_GUARD_PATTERNS :: "string list" where
  "AUTH_GUARD_PATTERNS =
     [''AuthGuard'', ''JwtAuthGuard'', ''LocalAuthGuard'', ''SessionGuard'', ''BearerGuard'',
      ''TokenGuard'']"

definition PUBLIC_DECORATORS :: "string list" where
  "PUBLIC_DECORATORS = [''Public'', ''AllowAnonymous'', ''SkipAuth'', ''NoAuth'', ''IsPublic'']"

definition ROLE_DECORATORS :: "string list" where
  "ROLE_DECORATORS = [''Roles'', ''RequireRoles'', ''HasRoles'', ''Authorize'']"

definition POLICY_DECORATORS :: "string list" where
  "POLICY_DECORATORS = [''Policies'', ''RequirePolicies'', ''CheckPolicies'']"

record NestJSAuthContext =
  classGuards :: "string list option"
  classRoles :: "string list option"
  isPublic :: "bool option"

definition isAuthGuard :: "string \<Rightarrow> bool" where
  "isAuthGuard guardName = list_ex (\<lambda>p. test_contains_ci p guardName) AUTH_GUARD_PATTERNS"

text \<open>One argument of a method-level \<^verbatim>\<open>@UseGuards\<close>: an identifier, or a call whose
  callee is an identifier, gives a guard name; the name is pushed whether or not it
  is an auth guard.\<close>

definition push_guard :: "string \<Rightarrow> AuthorizationInfo \<Rightarrow> AuthorizationInfo" where
  "push_guard guardName auth =
     (let auth1 = (if isAuthGuard guardName then auth\<lparr>isAuthenticated := True\<rparr> else auth)
      in auth1\<lparr>guardNames := guardNames auth1 @ [guardName]\<rparr>)"

fun guard_arg :: "Expression \<Rightarrow> AuthorizationInfo \<Rightarrow> AuthorizationInfo" where
  "guard_arg (Identifier t) auth = push_guard t auth"
| "guard_arg (CallExpression (Identifier t) args) auth = push_guard t auth"
| "guard_arg _ auth = auth"

text \<open>A string value that is truthy (not empty) is pushed; an array literal
  contributes its string elements.\<close>

definition push_role :: "Expression \<Rightarrow> AuthorizationInfo \<Rightarrow> AuthorizationInfo" where
  "push_role e auth =
     (if truthy (getStringLiteralValue e)
      then auth\<lparr>roles := roles auth @ [the (getStringLiteralValue e)], isAuthenticated := True\<rparr>
      else auth)"

definition role_arg :: "Expression \<Rightarrow> AuthorizationInfo \<Rightarrow> AuthorizationInfo" where
  "role_arg arg auth =
     foldl (\<lambda>a elem. push_role elem a) (push_role arg auth) (getArrayLiteralElements arg)"

definition push_policy :: "Expression \<Rightarrow> AuthorizationInfo \<Rightarrow> AuthorizationInfo" where
  "push_policy e auth =
     (if truthy (getStringLiteralValue e)
      then auth\<lparr>policies := policies auth @ [the (getStringLiteralValue e)],
                isAuthenticated := True\<rparr>
      else auth)"

definition policy_arg :: "Expression \<Rightarrow> AuthorizationInfo \<Rightarrow> AuthorizationInfo" where
  "policy_arg arg auth =
     foldl (\<lambda>a elem. push_policy elem a) (push_policy arg auth) (getArrayLiteralElements arg)"

definition processDecorator :: "Decorator \<Rightarrow> AuthorizationInfo \<Rightarrow> AuthorizationInfo" where
  "processDecorator decorator auth =
     (if \<not> truthy (getDecoratorName decorator) then auth
      else let name = the (getDecoratorName decorator)
           in if name \<in> set PUBLIC_DECORATORS then auth\<lparr>isExplicitlyPublic := True\<rparr>
              else if name = ''UseGuards''
              then foldl (\<lambda>a arg. guard_arg arg a) auth (getDecoratorArguments decorator)
              else if name \<in> set ROLE_DECORATORS
              then foldl (\<lambda>a arg. role_arg arg a) auth (getDecoratorArguments decorator)
              else if name \<in> set POLICY_DECORATORS
              then foldl (\<lambda>a arg. policy_arg arg a) auth (getDecoratorArguments decorator)
              else auth)"

text \<open>A class-level guard is kept only when it is an auth guard.\<close>

definition class_guard :: "string \<Rightarrow> AuthorizationInfo \<Rightarrow> AuthorizationInfo" where
  "class_guard guard auth =
     (if isAuthGuard guard
      then auth\<lparr>isAuthenticated := True, guardNames := guardNames auth @ [guard]\<rparr>
      else auth)"

definition is_public_decorator :: "Decorator \<Rightarrow> bool" where
  "is_public_decorator d =
     (truthy (getDecoratorName d) \<and> the (getDecoratorName d) \<in> set PUBLIC_DECORATORS)"

definition nestjs_extract ::
  "Decorator list \<Rightarrow> NestJSAuthContext option \<Rightarrow> AuthorizationInfo" where
  "nestjs_extract decorators context =
     (let auth0 = createDefaultAuthorizationInfo;
          auth1 = (case context of
                     None \<Rightarrow> auth0
                   | Some ctx \<Rightarrow>
                       (case classGuards ctx of
                          None \<Rightarrow> auth0
                        | Some gs \<Rightarrow> foldl (\<lambda>a g. class_guard g a) auth0 gs));
          auth2 = (case context of
                     None \<Rightarrow> auth1
                   | Some ctx \<Rightarrow>
                       (case classRoles ctx of
                          None \<Rightarrow> auth1
                        | Some rs \<Rightarrow>
                            (let a = auth1\<lparr>roles := roles auth1 @ rs\<rparr>
                             in if length rs > 0 then a\<lparr>isAuthenticated := True\<rparr> else a)));
          auth3 = (case context of
                     None \<Rightarrow> auth2
                   | Some ctx \<Rightarrow>
                       (if isPublic ctx = Some True then auth2\<lparr>isExplicitlyPublic := True\<rparr>
                        else auth2));
          auth4 = foldl (\<lambda>a d. processDecorator d a) auth3 decorators;
          hasMethodPublic = list_ex is_public_decorator decorators;
          auth5 = (if hasMethodPublic then auth4\<lparr>isExplicitlyPublic := True\<rparr> else auth4)
      in auth5\<lparr>classification := determineClassification auth5\<rparr>)"

subsection \<open>Discoverer\<close>

text \<open>
  \<^verbatim>\<open>nestjs-discoverer.ts\<close>. A method declaration is given by its decorators, its name
  and the line and column of its start; a class by its decorators, its optional name
  and its method members.
\<close>

definition NESTJS_HTTP_DECORATORS :: "(string \<times> HttpMethod) list" where
  "NESTJS_HTTP_DECORATORS =
     [(''Get'', GET), (''Post'', POST), (''Put'', PUT), (''Delete'', DELETE), (''Patch'', PATCH),
      (''Options'', OPTIONS), (''Head'', HEAD), (''All'', ALL')]"

record MethodDeclaration =
  method_decorators :: "Decorator list"
  method_name :: string
  method_line :: nat
  method_column :: nat

record ClassDeclaration =
  class_decorators :: "Decorator list"
  class_name :: "string option"
  members :: "MethodDeclaration list"

record ClassAuthInfo =
  guards :: "string list"
  class_roles :: "string list"
  class_isPublic :: bool

definition class_decorator_step :: "Decorator \<Rightarrow> ClassAuthInfo \<Rightarrow> ClassAuthInfo" where
  "class_decorator_step decorator info =
     (let name = getDecoratorName decorator;
          info1 = (if name = Some ''UseGuards''
                   then info\<lparr>guards := guards info @
                          concat (map (\<lambda>arg. case arg of Identifier t \<Rightarrow> [t] | _ \<Rightarrow> [])
                                      (getDecoratorArguments decorator))\<rparr>
                   else info);
          info2 = (if name = Some ''Roles''
                   then info1\<lparr>class_roles := class_roles info1 @
                          concat (map (\<lambda>arg. if truthy (getStringLiteralValue arg)
                                             then [the (getStringLiteralValue arg)] else [])
                                      (getDecoratorArguments decorator))\<rparr>
                   else info1)
      in if name = Some ''Public'' \<or> name = Some ''AllowAnonymous'' \<or> name = Some ''SkipAuth''
         then info2\<lparr>class_isPublic := True\<rparr> else info2)"

definition extractClassAuthInfo :: "Decorator list \<Rightarrow> ClassAuthInfo" where
  "extractClassAuthInfo decorators =
     foldl (\<lambda>info d. class_decorator_step d info)
           \<lparr> guards = [], class_roles = [], class_isPublic = False \<rparr> decorators"

text \<open>\<^verbatim>\<open>extractControllerPath\<close> and \<^verbatim>\<open>extractRoutePath\<close> have the same body.\<close>

definition extractRoutePath :: "Decorator \<Rightarrow> string" where
  "extractRoutePath decorator =
     (case getDecoratorArguments decorator of
        [] \<Rightarrow> ''''
      | firstArg # rest \<Rightarrow> (case getStringLiteralValue firstArg of None \<Rightarrow> '''' | Some p \<Rightarrow> p))"

definition extractControllerPath :: "Decorator \<Rightarrow> string" where
  "extractControllerPath decorator = extractRoutePath decorator"

text \<open>The first decorator whose name is an HTTP verb decorator.\<close>

definition is_http_decorator :: "Decorator \<Rightarrow> bool" where
  "is_http_decorator d =
     (truthy (getDecoratorName d) \<and> map_of NESTJS_HTTP_DECORATORS (the (getDecoratorName d)) \<noteq> None)"

definition processMethod ::
  "MethodDeclaration \<Rightarrow> string \<Rightarrow> string \<Rightarrow> string \<Rightarrow> ClassAuthInfo \<Rightarrow> Endpoint option" where
  "processMethod methodNode fp controllerPath cName classAuth =
     (case find is_http_decorator (method_decorators methodNode) of
        None \<Rightarrow> None
      | Some decorator \<Rightarrow>
          Some (createEndpoint
                  (buildRoute controllerPath (extractRoutePath decorator))
                  (the (map_of NESTJS_HTTP_DECORATORS (the (getDecoratorName decorator))))
                  (Some (method_name methodNode))
                  (Some cName)
                  NestJS
                  \<lparr> filePath = fp, line = method_line methodNode,
                    column = method_column methodNode \<rparr>
                  (Some (nestjs_extract (method_decorators methodNode)
                           (Some \<lparr> classGuards = Some (guards classAuth),
                                   classRoles = Some (class_roles classAuth),
                                   isPublic = Some (class_isPublic classAuth) \<rparr>)))))"

definition processClass :: "ClassDeclaration \<Rightarrow> string \<Rightarrow> Endpoint list" where
  "processClass classNode fp =
     (case find (\<lambda>d. getDecoratorName d = Some ''Controller'') (class_decorators classNode) of
        None \<Rightarrow> []
      | Some controllerDecorator \<Rightarrow>
          (let controllerPath = extractControllerPath controllerDecorator;
               cName = (case class_name classNode of None \<Rightarrow> ''UnknownController'' | Some n \<Rightarrow> n);
               classAuth = extractClassAuthInfo (class_decorators classNode)
           in concat (map (\<lambda>member.
                             case processMethod member fp controllerPath cName classAuth of
                               None \<Rightarrow> [] | Some e \<Rightarrow> [e])
                          (members classNode))))"

text \<open>
  For the statements about guard names: the names that one argument of a method-level
  \<^verbatim>\<open>@UseGuards\<close> contributes, and the names that one method-level decorator contributes.
\<close>

fun arg_guard_names :: "Expression \<Rightarrow> string list" where
  "arg_guard_names (Identifier t) = [t]"
| "arg_guard_names (CallExpression (Identifier t) args) = [t]"
| "arg_guard_names _ = []"

definition method_guard_names :: "Expression list \<Rightarrow> string list" where
  "method_guard_names args = concat (map arg_guard_names args)"

definition decorator_guard_names :: "Decorator \<Rightarrow> string list" where
  "decorator_guard_names d =
     (if getDecoratorName d = Some ''UseGuards''
      then method_guard_names (getDecoratorArguments d) else [])"


text \<open>
  For the statements about a guarded class: some class decorator is \<^verbatim>\<open>@UseGuards\<close> with
  an identifier argument whose text matches an auth-guard pattern.
\<close>

definition is_auth_guard_identifier :: "Expression \<Rightarrow> bool" where
  "is_auth_guard_identifier arg = (case arg of Identifier t \<Rightarrow> isAuthGuard t | _ \<Rightarrow> False)"

definition has_identifier_auth_guard :: "Decorator list \<Rightarrow> bool" where
  "has_identifier_auth_guard decorators =
     list_ex (\<lambda>d. getDecoratorName d = Some ''UseGuards''
                   \<and> list_ex is_auth_guard_identifier (getDecoratorArguments d))
             decorators"

section \<open>Rules\<close>

text \<open>
  \<^verbatim>\<open>rule-interface.ts\<close> and the eight rule classes. A rule object is a record of its
  read-only fields and its \<^verbatim>\<open>evaluate\<close> method. Every \<^verbatim>\<open>getRecommendation\<close> switches on
  the endpoint type; its \<^verbatim>\<open>default\<close> branch is not reached by a value of the enum.
\<close>

record SecurityRule =
  rule_id :: string
  rule_name :: string
  rule_description :: string
  rule_severity :: Severity
  evaluate :: "Endpoint \<Rightarrow> Finding list"

definition dq :: string where
  "dq = [CHR 0x22]"

definition digit_char :: "nat \<Rightarrow> char" where
  "digit_char d = ''0123456789'' ! d"

text \<open>The decimal text of a length, as a template literal prints it.\<close>

function show_nat :: "nat \<Rightarrow> string" where
  "show_nat n = (if n < 10 then [digit_char n] else show_nat (n div 10) @ [digit_char (n mod 10)])"
  by pat_completeness auto
termination
  by (relation "measure id") auto

text \<open>\<^verbatim>\<open>formatEndpoint\<close>'s text, which every message starts with.\<close>

definition method_route :: "Endpoint \<Rightarrow> string" where
  "method_route ep = method_string (method ep) @ '' '' @ route ep"

subsection \<open>AP001: public without explicit intent\<close>

definition AP001_recommendation :: "Endpoint \<Rightarrow> string" where
  "AP001_recommendation ep =
     (case type ep of
        Express \<Rightarrow>
          ''Add authentication middleware (e.g., passport.authenticate) or '' @
          ''mark as explicitly public with allowAnonymous middleware if intentional.''
      | NestJS \<Rightarrow>
          ''Add @UseGuards(AuthGuard) to require authentication, or '' @
          ''add @Public() decorator if public access is intentional.''
      | Fastify \<Rightarrow>
          ''Add preHandler hook for authentication or '' @
          ''mark as explicitly public if intentional.''
      | Koa \<Rightarrow>
          ''Add authentication middleware or '' @
          ''mark as explicitly public if intentional.'')"

definition AP001_evaluate :: "Endpoint \<Rightarrow> Finding list" where
  "AP001_evaluate ep =
     (let auth = authorization ep
      in if classification auth = Public \<and> \<not> isExplicitlyPublic auth \<and> \<not> isAuthenticated auth
            \<and> length (guardNames auth) = 0
         then [createFinding ''AP001'' ''Public without explicit intent'' High
                 (method_route ep @ '' is publicly accessible without explicit intent'')
                 ep (location ep) (AP001_recommendation ep)]
         else [])"

definition PublicWithoutExplicitIntent :: SecurityRule where
  "PublicWithoutExplicitIntent =
     \<lparr> rule_id = ''AP001'', rule_name = ''Public without explicit intent'',
       rule_description =
         ''Endpoint is publicly accessible without explicit @Public or allowAnonymous marker'',
       rule_severity = High, evaluate = AP001_evaluate \<rparr>"

subsection \<open>AP002: AllowAnonymous on write operation\<close>

definition AP002_recommendation :: "Endpoint \<Rightarrow> string" where
  "AP002_recommendation ep =
     ''Write operations like '' @ method_string (method ep) @
     '' typically require authentication. '' @
     ''If public access is truly needed (e.g., user registration, contact form), '' @
     ''consider adding rate limiting and input validation. '' @
     ''Otherwise, remove the public marker and add authentication.''"

definition AP002_evaluate :: "Endpoint \<Rightarrow> Finding list" where
  "AP002_evaluate ep =
     (let auth = authorization ep
      in if isWriteMethod (method ep) \<and> isExplicitlyPublic auth
         then [createFinding ''AP002'' ''AllowAnonymous on write operation'' High
                 (method_route ep @ '' is a write operation explicitly marked as public'')
                 ep (location ep) (AP002_recommendation ep)]
         else [])"

definition AllowAnonymousOnWrite :: SecurityRule where
  "AllowAnonymousOnWrite =
     \<lparr> rule_id = ''AP002'', rule_name = ''AllowAnonymous on write operation'',
       rule_description =
         ''Write operation (POST/PUT/DELETE/PATCH) is explicitly marked as public'',
       rule_severity = High, evaluate = AP002_evaluate \<rparr>"

subsection \<open>AP003: controller/action authorization conflict\<close>

definition AP003_recommendation :: string where
  "AP003_recommendation =
     ''This endpoint has @Public decorator that overrides class-level @UseGuards. '' @
     ''Ensure this is intentional. If the endpoint should be public, consider '' @
     ''documenting why. If not, remove the @Public decorator.''"

definition AP003_evaluate :: "Endpoint \<Rightarrow> Finding list" where
  "AP003_evaluate ep =
     (if type ep \<noteq> NestJS then []
      else let auth = authorization ep
           in if isAuthenticated auth \<and> isExplicitlyPublic auth
              then [createFinding ''AP003'' ''Controller/action authorization conflict'' Medium
                      (method_route ep @ '' has @Public overriding class-level guards'')
                      ep (location ep) AP003_recommendation]
              else [])"

definition ControllerActionConflict :: SecurityRule where
  "ControllerActionConflict =
     \<lparr> rule_id = ''AP003'', rule_name = ''Controller/action authorization conflict'',
       rule_description =
         ''Method-level public marker overrides class-level authentication guards'',
       rule_severity = Medium, evaluate = AP003_evaluate \<rparr>"

subsection \<open>AP004: missing authentication on write operations\<close>

definition AP004_recommendation :: "Endpoint \<Rightarrow> string" where
  "AP004_recommendation ep =
     (case type ep of
        Express \<Rightarrow>
          ''CRITICAL: Add authentication middleware immediately. '' @
          ''Example: router.post('' @ dq @ ''/path'' @ dq @ '', passport.authenticate('' @ dq @
          ''jwt'' @ dq @ ''), handler)''
      | NestJS \<Rightarrow>
          ''CRITICAL: Add @UseGuards(AuthGuard) decorator immediately. '' @
          ''If this endpoint must be public, add @Public() to make intent explicit.''
      | Fastify \<Rightarrow>
          ''CRITICAL: Add authentication via preHandler hook. '' @
          ''Example: { preHandler: [fastify.authenticate] }''
      | Koa \<Rightarrow> ''CRITICAL: Add authentication middleware before the route handler.'')"

definition AP004_evaluate :: "Endpoint \<Rightarrow> Finding list" where
  "AP004_evaluate ep =
     (let auth = authorization ep
      in if isWriteMethod (method ep) \<and> classification auth = Public \<and> \<not> isAuthenticated auth
            \<and> \<not> isExplicitlyPublic auth
         then [createFinding ''AP004'' ''Missing authentication on write operations'' Critical
                 (method_route ep @ '' is an unprotected write operation'')
                 ep (location ep) (AP004_recommendation ep)]
         else [])"

definition MissingAuthOnWrites :: SecurityRule where
  "MissingAuthOnWrites =
     \<lparr> rule_id = ''AP004'', rule_name = ''Missing authentication on write operations'',
       rule_description =
         ''Write operation has no authentication and no explicit public marker'',
       rule_severity = Critical, evaluate = AP004_evaluate \<rparr>"

subsection \<open>AP005: excessive role access\<close>

definition maxRoles :: nat where
  "maxRoles = 3"

definition AP005_recommendation :: "string list \<Rightarrow> string" where
  "AP005_recommendation rs =
     ''This endpoint allows '' @ show_nat (length rs) @ '' different roles which may indicate '' @
     ''overly permissive access. Consider: (1) Creating a permission-based system '' @
     ''instead of role-based, (2) Creating role hierarchies, or (3) Using policies '' @
     ''to combine related access patterns.''"

definition AP005_evaluate :: "Endpoint \<Rightarrow> Finding list" where
  "AP005_evaluate ep =
     (let rs = roles (authorization ep)
      in if length rs > maxRoles
         then [createFinding ''AP005'' ''Excessive role access'' Low
                 (method_route ep @ '' allows '' @ show_nat (length rs) @ '' roles: '' @
                  join '', '' rs)
                 ep (location ep) (AP005_recommendation rs)]
         else [])"

definition ExcessiveRoleAccess :: SecurityRule where
  "ExcessiveRoleAccess =
     \<lparr> rule_id = ''AP005'', rule_name = ''Excessive role access'',
       rule_description = ''Endpoint allows more than 3 roles'',
       rule_severity = Low, evaluate = AP005_evaluate \<rparr>"

subsection \<open>AP006: weak role naming\<close>

definition weakPatterns :: "string list" where
  "weakPatterns =
     [''user'', ''admin'', ''guest'', ''member'', ''moderator'', ''manager'', ''superuser'',
      ''root'', ''default'', ''basic'', ''standard'', ''premium'', ''vip'']"

definition AP006_recommendation :: "string list \<Rightarrow> string" where
  "AP006_recommendation weakRoles =
     ''Consider using more descriptive role names that indicate specific permissions '' @
     ''or responsibilities. Instead of '' @ dq @ hd weakRoles @ dq @ '', consider names like '' @
     dq @ ''billing-admin'' @ dq @ '', '' @ dq @ ''content-editor'' @ dq @ '', '' @
     dq @ ''inventory-manager'' @ dq @ '', or '' @ dq @ ''read-only-analyst'' @ dq @ ''.''"

definition AP006_evaluate :: "Endpoint \<Rightarrow> Finding list" where
  "AP006_evaluate ep =
     (let rs = roles (authorization ep);
          weakRoles = filter (\<lambda>role. list_ex (\<lambda>pattern. test_exact_ci pattern role) weakPatterns) rs
      in if length weakRoles > 0
         then [createFinding ''AP006'' ''Weak role naming'' Low
                 (method_route ep @ '' uses generic role names: '' @ join '', '' weakRoles)
                 ep (location ep) (AP006_recommendation weakRoles)]
         else [])"

definition WeakRoleNaming :: SecurityRule where
  "WeakRoleNaming =
     \<lparr> rule_id = ''AP006'', rule_name = ''Weak role naming'',
       rule_description = ''Role names are too generic or weak'',
       rule_severity = Low, evaluate = AP006_evaluate \<rparr>"

subsection \<open>AP007: sensitive route keywords\<close>

definition sensitiveKeywords :: "string list" where
  "sensitiveKeywords =
     [''admin'', ''debug'', ''internal'', ''export'', ''import'', ''backup'', ''config'',
      ''settings'', ''system'', ''management'', ''dashboard'', ''metrics'', ''logs'', ''audit'',
      ''secret'', ''private'', ''hidden'', ''test'', ''dev'', ''staging'']"

definition AP007_recommendation :: "string list \<Rightarrow> string" where
  "AP007_recommendation foundKeywords =
     ''Routes containing '' @ dq @ hd foundKeywords @ dq @
     '' typically indicate sensitive functionality '' @
     ''that should require authentication. Add authentication middleware or guards, '' @
     ''or rename the route if it is truly meant to be public.''"

definition AP007_evaluate :: "Endpoint \<Rightarrow> Finding list" where
  "AP007_evaluate ep =
     (let auth = authorization ep
      in if classification auth \<noteq> Public then []
         else let routeLower = toLowerCase (route ep);
                  foundKeywords = filter (\<lambda>keyword. includes_str routeLower keyword) sensitiveKeywords
              in if length foundKeywords > 0
                 then [createFinding ''AP007'' ''Sensitive route keywords'' Medium
                         (method_route ep @ '' is public but contains sensitive keywords: '' @
                          join '', '' foundKeywords)
                         ep (location ep) (AP007_recommendation foundKeywords)]
                 else [])"

definition SensitiveRouteKeywords :: SecurityRule where
  "SensitiveRouteKeywords =
     \<lparr> rule_id = ''AP007'', rule_name = ''Sensitive route keywords'',
       rule_description = ''Public route contains sensitive keywords'',
       rule_severity = Medium, evaluate = AP007_evaluate \<rparr>"

subsection \<open>AP008: unprotected endpoint\<close>

definition AP008_recommendation :: "Endpoint \<Rightarrow> string" where
  "AP008_recommendation ep =
     (case type ep of
        Express \<Rightarrow>
          ''This endpoint has no middleware. Consider adding: '' @
          ''(1) Authentication middleware, (2) Rate limiting, (3) Input validation, '' @
          ''(4) Request logging. Example: app.get('' @ dq @ ''/path'' @ dq @
          '', auth, validate, handler)''
      | NestJS \<Rightarrow>
          ''This endpoint has no guards or interceptors. Consider adding: '' @
          ''(1) @UseGuards() for authentication, (2) @UseInterceptors() for logging, '' @
          ''(3) @UsePipes() for validation.''
      | Fastify \<Rightarrow>
          ''This endpoint has no hooks. Consider adding preHandler hooks for '' @
          ''authentication, validation, and logging.''
      | Koa \<Rightarrow>
          ''This endpoint has no middleware chain. Consider adding middleware for '' @
          ''authentication, validation, and error handling.'')"

definition AP008_evaluate :: "Endpoint \<Rightarrow> Finding list" where
  "AP008_evaluate ep =
     (let auth = authorization ep
      in if classification auth = Public \<and> length (middlewareChain auth) = 0
            \<and> length (guardNames auth) = 0 \<and> \<not> isExplicitlyPublic auth
         then [createFinding ''AP008'' ''Unprotected endpoint'' High
                 (method_route ep @ '' has no middleware chain'')
                 ep (location ep) (AP008_recommendation ep)]
         else [])"

definition UnprotectedEndpoint :: SecurityRule where
  "UnprotectedEndpoint =
     \<lparr> rule_id = ''AP008'', rule_name = ''Unprotected endpoint'',
       rule_description = ''Endpoint has no middleware chain for protection'',
       rule_severity = High, evaluate = AP008_evaluate \<rparr>"

section \<open>Rule engine\<close>

text \<open>\<^verbatim>\<open>rule-engine.ts\<close>. The engine's state is the list of its enabled rules, in
  catalogue order; \<^verbatim>\<open>options\<close> of a rule configuration is never read.\<close>

record RuleConfig =
  enabled :: bool
  cfg_severity :: "Severity option"

record RuleEngineConfig =
  cfg_rules :: "(string \<rightharpoonup> RuleConfig) option"

definition allRules :: "SecurityRule list" where
  "allRules =
     [PublicWithoutExplicitIntent, AllowAnonymousOnWrite, ControllerActionConflict,
      MissingAuthOnWrites, ExcessiveRoleAccess, WeakRoleNaming, SensitiveRouteKeywords,
      UnprotectedEndpoint]"

text \<open>\<^verbatim>\<open>config?.rules?.[rule.id]\<close>, and the test \<^verbatim>\<open>ruleConfig?.enabled === false\<close>.\<close>

definition rule_disabled :: "RuleEngineConfig option \<Rightarrow> SecurityRule \<Rightarrow> bool" where
  "rule_disabled config rule =
     (case config of
        None \<Rightarrow> False
      | Some cfg \<Rightarrow>
          (case cfg_rules cfg of
             None \<Rightarrow> False
           | Some rs \<Rightarrow> (case rs (rule_id rule) of None \<Rightarrow> False | Some rc \<Rightarrow> enabled rc = False)))"

definition initializeRules :: "RuleEngineConfig option \<Rightarrow> SecurityRule list" where
  "initializeRules config = filter (\<lambda>rule. \<not> rule_disabled config rule) allRules"

definition engine_evaluate :: "SecurityRule list \<Rightarrow> Endpoint list \<Rightarrow> Finding list" where
  "engine_evaluate rules eps = concat (map (\<lambda>ep. concat (map (\<lambda>rule. evaluate rule ep) rules)) eps)"

section \<open>Suppression matcher\<close>

text \<open>\<^verbatim>\<open>SuppressionConfig\<close> of \<^verbatim>\<open>config-loader.ts\<close> and \<^verbatim>\<open>suppression-matcher.ts\<close>. The
  optional filters carry the prefix \<open>sup_\<close>.\<close>

record SuppressionConfig =
  sup_ruleId :: "string option"
  sup_route :: "string option"
  sup_routePattern :: "string option"
  sup_method :: "string option"
  reason :: string

text \<open>\<^verbatim>\<open>regexPattern.replace(/[.+^${}()|[\]\\]/g, '\\$&')\<close>: a backslash before each of
  the twelve characters of the class.\<close>

definition escaped_chars :: "char list" where
  "escaped_chars = ''.+^${}()|[]'' @ [backslash]"

definition escape_specials :: "string \<Rightarrow> string" where
  "escape_specials s = concat (map (\<lambda>c. if c \<in> set escaped_chars then [backslash, c] else [c]) s)"

text \<open>
  \<^verbatim>\<open>matchesRoutePattern\<close>: the three replacements, the escaping, the anchors, then
  \<^verbatim>\<open>new RegExp\<close> and \<^verbatim>\<open>test\<close>; a SyntaxError of the constructor is caught and gives
  \<^verbatim>\<open>false\<close>.
\<close>

definition route_pattern_source :: "string \<Rightarrow> string" where
  "route_pattern_source pattern =
     (let p1 = replace_all ''**'' ''<<<DOUBLE_STAR>>>'' pattern;
          p2 = replace_all ''*'' ''[^/]+'' p1;
          p3 = replace_all ''<<<DOUBLE_STAR>>>'' ''.*'' p2;
          p4 = escape_specials p3
      in ''^'' @ p4 @ ''$'')"

definition matchesRoutePattern :: "string \<Rightarrow> string \<Rightarrow> bool" where
  "matchesRoutePattern pattern r =
     (case compile (route_pattern_source pattern) of
        Compiled regex \<Rightarrow> regex_test regex r
      | SyntaxError \<Rightarrow> False
      | Unsupported \<Rightarrow> False)"

definition matchesEndpoint :: "SuppressionConfig \<Rightarrow> Endpoint \<Rightarrow> string \<Rightarrow> bool" where
  "matchesEndpoint suppression ep rid =
     (if truthy (sup_ruleId suppression) \<and> the (sup_ruleId suppression) \<noteq> rid then False
      else if truthy (sup_method suppression)
              \<and> toUpperCase (the (sup_method suppression)) \<noteq> method_string (method ep)
      then False
      else if truthy (sup_route suppression) \<and> the (sup_route suppression) \<noteq> route ep then False
      else if truthy (sup_routePattern suppression)
              \<and> \<not> matchesRoutePattern (the (sup_routePattern suppression)) (route ep)
      then False
      else True)"

definition matchesFinding :: "SuppressionConfig \<Rightarrow> Finding \<Rightarrow> bool" where
  "matchesFinding suppression finding =
     matchesEndpoint suppression (endpoint finding) (ruleId finding)"

definition findMatchingSuppression :: "SuppressionConfig list \<Rightarrow> Finding \<Rightarrow> SuppressionConfig option" where
  "findMatchingSuppression suppressions finding =
     find (\<lambda>suppression. matchesFinding suppression finding) suppressions"

definition isEndpointSuppressed ::
  "SuppressionConfig list \<Rightarrow> Endpoint \<Rightarrow> string \<Rightarrow> SuppressionConfig option" where
  "isEndpointSuppressed suppressions ep rid =
     find (\<lambda>suppression. matchesEndpoint suppression ep rid) suppressions"

definition applySuppressionsToFindings :: "SuppressionConfig list \<Rightarrow> Finding list \<Rightarrow> Finding list" where
  "applySuppressionsToFindings suppressions findings =
     map (\<lambda>finding.
            case findMatchingSuppression suppressions finding of
              Some suppression \<Rightarrow>
                finding\<lparr>suppressed := True, suppressionReason := Some (reason suppression)\<rparr>
            | None \<Rightarrow> finding)
         findings"

section \<open>Sample inputs\<close>

text \<open>Two router mounts registered from two files, as the first pass of the Express
  discoverer registers them.\<close>

definition two_mounts :: RouteGroupRegistry where
  "two_mounts =
     registerRouterMount
       (registerRouterMount empty_registry ''src/app.ts'' ''app'' ''/api/users'' ''userRouter'')
       ''src/admin.ts'' ''app'' ''/admin'' ''adminRouter''"

text \<open>Two findings of rule AP001, on \<^verbatim>\<open>GET /api/health\<close> and on \<^verbatim>\<open>GET /api/products\<close>, and
  the suppression \<^verbatim>\<open>{route: "/api/health", reason: "intentional"}\<close>.\<close>

definition get_endpoint :: "string \<Rightarrow> Endpoint" where
  "get_endpoint r =
     createEndpoint r GET None None Express \<lparr> filePath = ''src/app.ts'', line = 1, column = 1 \<rparr> None"

definition sample_findings :: "Finding list" where
  "sample_findings =
     AP001_evaluate (get_endpoint ''/api/health'') @ AP001_evaluate (get_endpoint ''/api/products'')"

definition health_suppression :: SuppressionConfig where
  "health_suppression =
     \<lparr> sup_ruleId = None, sup_route = Some ''/api/health'', sup_routePattern = None,
       sup_method = None, reason = ''intentional'' \<rparr>"

text \<open>Two suppressions with no filter, which differ in their reason.\<close>

definition catch_all :: "string \<Rightarrow> SuppressionConfig" where
  "catch_all why =
     \<lparr> sup_ruleId = None, sup_route = None, sup_routePattern = None, sup_method = None,
       reason = why \<rparr>"

text \<open>
  A controller class with \<^verbatim>\<open>@Controller('protected')\<close> and \<^verbatim>\<open>@UseGuards(JwtAuthGuard)\<close>,
  and its one method, marked \<^verbatim>\<open>@Public()\<close>, then carrying the decorators \<open>ds\<close>, the
  last of which is the verb decorator.
\<close>

definition public_method :: "Decorator list \<Rightarrow> MethodDeclaration" where
  "public_method ds =
     \<lparr> method_decorators = CallExpression (Identifier ''Public'') [] # ds,
       method_name = ''submitFeedback'', method_line = 10, method_column = 3 \<rparr>"

definition guarded_controller :: "Decorator list \<Rightarrow> ClassDeclaration" where
  "guarded_controller ds =
     \<lparr> class_decorators =
         [CallExpression (Identifier ''Controller'') [StringLiteral ''protected''],
          CallExpression (Identifier ''UseGuards'') [Identifier ''JwtAuthGuard'']],
       class_name = Some ''ProtectedController'',
       members = [public_method ds] \<rparr>"

definition get_feedback :: "Decorator list" where
  "get_feedback = [CallExpression (Identifier ''Get'') [StringLiteral ''feedback'']]"

definition post_feedback :: "Decorator list" where
  "post_feedback = [CallExpression (Identifier ''Post'') [StringLiteral ''feedback'']]"

definition roles_get_feedback :: "Decorator list" where
  "roles_get_feedback =
     [CallExpression (Identifier ''Roles'') [StringLiteral ''admin''],
      CallExpression (Identifier ''Get'') [StringLiteral ''feedback'']]"

text \<open>An endpoint of the NestJS discoverer with the given authorization.\<close>

definition nest_endpoint :: "AuthorizationInfo \<Rightarrow> Endpoint" where
  "nest_endpoint auth =
     createEndpoint ''/items'' GET (Some ''list'') (Some ''ItemsController'') NestJS
       \<lparr> filePath = ''src/items.controller.ts'', line = 5, column = 3 \<rparr> (Some auth)"

text \<open>The class context with the given class-level guards, no class-level role and no
  class-level public marker.\<close>

definition guards_context :: "string list \<Rightarrow> NestJSAuthContext" where
  "guards_context gs = \<lparr> classGuards = Some gs, classRoles = Some [], isPublic = Some False \<rparr>"


text \<open>
  \<^verbatim>\<open>ProtectedController\<close> of the repository's NestJS sample, with its method
  \<^verbatim>\<open>getSemiPublic\<close>: the class-level guard is the call \<^verbatim>\<open>AuthGuard('jwt')\<close>.
\<close>

definition sample_protected_controller :: ClassDeclaration where
  "sample_protected_controller =
     \<lparr> class_decorators =
         [CallExpression (Identifier ''Controller'') [StringLiteral ''protected''],
          CallExpression (Identifier ''UseGuards'')
            [CallExpression (Identifier ''AuthGuard'') [StringLiteral ''jwt'']]],
       class_name = Some ''ProtectedController'',
       members =
         [\<lparr> method_decorators =
               [CallExpression (Identifier ''Public'') [],
                CallExpression (Identifier ''Get'') [StringLiteral ''semi-public'']],
             method_name = ''getSemiPublic'', method_line = 49, method_column = 3 \<rparr>] \<rparr>"

section \<open>Classification\<close>

text \<open>
  Claim C1. For every authorization value the derived classification is
  PolicyRestricted when \<open>policies\<close> is non-empty, else RoleRestricted when \<open>roles\<close> is
  non-empty, else Authenticated when \<open>isAuthenticated\<close> holds, else Public; the flag
  \<open>isExplicitlyPublic\<close> has no influence: whatever value it is given the result is the
  same, and with roles \<open>[x]\<close> and no policies the result is RoleRestricted for every
  value of both flags. The Express and the NestJS extractor return an authorization
  whose \<open>classification\<close> field is this function of its other fields.
\<close>

theorem determineClassification_precedence:
  fixes auth :: AuthorizationInfo
  shows "determineClassification auth =
           (if policies auth \<noteq> [] then PolicyRestricted
            else if roles auth \<noteq> [] then RoleRestricted
            else if isAuthenticated auth then Authenticated
            else Public)
         \<and> determineClassification (auth\<lparr>isExplicitlyPublic := b\<rparr>) = determineClassification auth
         \<and> determineClassification
              \<lparr> isAuthenticated = a, isExplicitlyPublic = p, roles = [x], policies = [],
                middlewareChain = mc, guardNames = gn, classification = c \<rparr> = RoleRestricted
         \<and> classification (express_extract mws ectx) = determineClassification (express_extract mws ectx)
         \<and> classification (nestjs_extract ds nctx) = determineClassification (nestjs_extract ds nctx)"
  by (simp add: determineClassification_def express_extract_def nestjs_extract_def Let_def)


section \<open>Route invariant\<close>

lemma collapse_not_slash_head:
  "s = [] \<or> hd s \<noteq> CHR ''/'' \<Longrightarrow> collapse_slashes s = [] \<or> hd (collapse_slashes s) \<noteq> CHR ''/''"
  by (cases s) auto

lemma dropWhile_slash_head:
  "dropWhile (\<lambda>d. d = CHR ''/'') cs = [] \<or> hd (dropWhile (\<lambda>d. d = CHR ''/'') cs) \<noteq> CHR ''/''"
  using hd_dropWhile[of "\<lambda>d. d = CHR ''/''" cs] by blast

lemma nds_Cons:
  "no_double_slash (c # r) = ((c = CHR ''/'' \<longrightarrow> r = [] \<or> hd r \<noteq> CHR ''/'') \<and> no_double_slash r)"
  by (cases r) auto

lemma nds_collapse: "no_double_slash (collapse_slashes s)"
proof (induction s rule: collapse_slashes.induct)
  case 1
  show ?case by simp
next
  case (2 c cs)
  show ?case
  proof (cases "c = CHR ''/''")
    case True
    with 2 have ih: "no_double_slash (collapse_slashes (dropWhile (\<lambda>d. d = CHR ''/'') cs))" by simp
    have "collapse_slashes (dropWhile (\<lambda>d. d = CHR ''/'') cs) = []
          \<or> hd (collapse_slashes (dropWhile (\<lambda>d. d = CHR ''/'') cs)) \<noteq> CHR ''/''"
      by (rule collapse_not_slash_head) (rule dropWhile_slash_head)
    with ih True show ?thesis by (simp add: nds_Cons del: no_double_slash.simps)
  next
    case False
    with 2 show ?thesis by (simp add: nds_Cons del: no_double_slash.simps)
  qed
qed

lemma nds_butlast: "no_double_slash s \<Longrightarrow> no_double_slash (butlast s)"
  by (induction s rule: no_double_slash.induct) (auto split: if_splits)

lemma nds_last_butlast:
  "no_double_slash s \<Longrightarrow> length s > 1 \<Longrightarrow> last s = CHR ''/'' \<Longrightarrow> last (butlast s) \<noteq> CHR ''/''"
  by (induction s rule: no_double_slash.induct) (auto split: if_splits)

lemma endsWith_slash: "endsWith s ''/'' = (s \<noteq> [] \<and> last s = CHR ''/'')"
  by (cases s rule: rev_cases) (auto simp: endsWith_def suffix_def)

lemma startsWith_slash: "startsWith s ''/'' = (s \<noteq> [] \<and> hd s = CHR ''/'')"
  by (cases s) (auto simp: startsWith_def)

lemma match_segments_shape:
  "match_segments r = (r \<noteq> [] \<and> hd r \<noteq> CHR ''/'' \<and> last r \<noteq> CHR ''/'' \<and> no_double_slash r)"
  by (induction r rule: match_segments.induct)
     (auto simp: nds_Cons simp del: no_double_slash.simps(1))

text \<open>The pattern and the invariant in words say the same.\<close>

lemma route_regex_shape: "route_regex s = route_shape s"
proof (cases s)
  case Nil
  then show ?thesis by (simp add: route_shape_def startsWith_slash)
next
  case (Cons c r)
  show ?thesis
  proof (cases "r = []")
    case True
    with Cons show ?thesis
      by (auto simp: route_shape_def startsWith_slash endsWith_slash)
  next
    case False
    with Cons show ?thesis
      by (auto simp: route_shape_def startsWith_slash endsWith_slash match_segments_shape nds_Cons
               simp del: no_double_slash.simps)
  qed
qed

lemma strip_trailing_shape:
  assumes "s \<noteq> []" "hd s = CHR ''/''" "no_double_slash s"
  shows "route_shape (if length s > 1 \<and> endsWith s ''/'' then butlast s else s)"
proof (cases "length s > 1 \<and> endsWith s ''/''")
  case True
  then have l: "last s = CHR ''/''" and n: "length s > 1" by (auto simp: endsWith_slash)
  from n have b: "butlast s \<noteq> []" by (cases s) auto
  from n assms have h: "hd (butlast s) = CHR ''/''" by (cases s) auto
  from nds_last_butlast[OF assms(3) n l] nds_butlast[OF assms(3)] b h True
  show ?thesis by (simp add: route_shape_def startsWith_slash endsWith_slash)
next
  case False
  then have "\<not> endsWith s ''/'' \<or> length s \<le> 1" by auto
  then show ?thesis
  proof
    assume "\<not> endsWith s ''/''"
    with assms False show ?thesis by (auto simp: route_shape_def startsWith_slash)
  next
    assume "length s \<le> 1"
    with assms have "s = ''/''" by (cases s) auto
    then show ?thesis by (simp add: route_shape_def startsWith_def endsWith_def)
  qed
qed

lemma collapse_keeps_head:
  "s \<noteq> [] \<Longrightarrow> collapse_slashes s \<noteq> [] \<and> hd (collapse_slashes s) = hd s"
  by (cases s) auto

lemma normalizePath_shape: "route_shape (normalizePath p)"
proof -
  define p1 where "p1 = (if \<not> startsWith p ''/'' then ''/'' @ p else p)"
  have p1: "p1 \<noteq> [] \<and> hd p1 = CHR ''/''"
    by (auto simp: p1_def startsWith_slash)
  define p2 where "p2 = collapse_slashes p1"
  have "p2 \<noteq> []" "hd p2 = CHR ''/''" "no_double_slash p2"
    using p1 collapse_keeps_head[of p1] by (auto simp: p2_def nds_collapse)
  from strip_trailing_shape[OF this] show ?thesis
    unfolding normalizePath_def Let_def p2_def p1_def .
qed

lemma buildRoute_shape: "route_shape (buildRoute c m)"
proof -
  define r0 where "r0 = (if c \<noteq> [] then (if startsWith c ''/'' then c else ''/'' @ c) else ''/'')"
  define r1 where "r1 = (if m \<noteq> []
                    then (let normalizedMethodPath =
                                (if startsWith m ''/'' then m else ''/'' @ m)
                          in if r0 = ''/'' then normalizedMethodPath
                             else r0 @ normalizedMethodPath)
                    else r0)"
  define r2 where "r2 = collapse_slashes r1"
  define r3 where "r3 = (if \<not> startsWith r2 ''/'' then ''/'' @ r2 else r2)"
  have r0: "r0 \<noteq> [] \<and> hd r0 = CHR ''/''"
    by (auto simp: r0_def startsWith_slash)
  then have r1: "r1 \<noteq> [] \<and> hd r1 = CHR ''/''"
    by (auto simp: r1_def Let_def startsWith_slash)
  then have r2: "r2 \<noteq> [] \<and> hd r2 = CHR ''/''"
    using collapse_keeps_head[of r1] by (simp add: r2_def)
  then have "r3 = r2" by (simp add: r3_def startsWith_slash)
  with r2 have "r3 \<noteq> []" "hd r3 = CHR ''/''" "no_double_slash r3"
    by (auto simp: r2_def nds_collapse)
  from strip_trailing_shape[OF this] show ?thesis
    unfolding buildRoute_def Let_def r3_def r2_def r1_def r0_def .
qed

lemma processMethod_route:
  "processMethod m fp cp cn ca = Some e \<Longrightarrow> \<exists>mp. route e = buildRoute cp mp"
  by (auto simp: processMethod_def createEndpoint_def split: option.splits)

lemma processClass_routes: "list_all (\<lambda>e. route_regex (route e)) (processClass classNode fp)"
proof -
  have "route_regex (route e)" if "e \<in> set (processClass classNode fp)" for e
  proof -
    from that obtain m cp cn ca where "processMethod m fp cp cn ca = Some e"
      by (auto simp: processClass_def Let_def split: option.splits)
    then obtain mp where "route e = buildRoute cp mp"
      using processMethod_route by blast
    then show ?thesis by (simp add: route_regex_shape buildRoute_shape)
  qed
  then show ?thesis by (simp add: list_all_iff)
qed

text \<open>
  Claim C2. The route of every endpoint that a discoverer emits matches
  \<^verbatim>\<open>^/([^/]+(/[^/]+)*)?$\<close>: it starts with a slash, has no two slashes in a row, and
  ends with a slash only when it is the root. The Express route is \<open>normalizePath\<close> of the
  registry's prefix for the caller followed by the path, the Fastify and Koa routes are
  \<open>normalizePath\<close> of the path, and the NestJS route is \<open>buildRoute\<close> of the controller path
  and the method path; this holds for every registry and all strings, and so for every
  endpoint of a controller class.
\<close>

theorem discovered_route_matches_pattern:
  "route_regex (express_fullRoute reg file callerName routePath)
   \<and> route_regex (normalizePath routePath)
   \<and> route_regex (buildRoute controllerPath methodPath)
   \<and> list_all (\<lambda>e. route_regex (route e)) (processClass classNode fp)
   \<and> route_shape (normalizePath routePath)
   \<and> route_shape (buildRoute controllerPath methodPath)"
  by (simp add: route_regex_shape normalizePath_shape buildRoute_shape express_fullRoute_def
        processClass_routes[unfolded route_regex_shape])


section \<open>Rule evaluation\<close>

lemmas rule_defs =
  PublicWithoutExplicitIntent_def AllowAnonymousOnWrite_def ControllerActionConflict_def
  MissingAuthOnWrites_def ExcessiveRoleAccess_def WeakRoleNaming_def SensitiveRouteKeywords_def
  UnprotectedEndpoint_def

lemmas evaluate_defs =
  AP001_evaluate_def AP002_evaluate_def AP003_evaluate_def AP004_evaluate_def
  AP005_evaluate_def AP006_evaluate_def AP007_evaluate_def AP008_evaluate_def

lemma initializeRules_default: "initializeRules None = allRules"
  by (simp add: initializeRules_def rule_disabled_def)

lemma engine_evaluate_single:
  "engine_evaluate allRules [ep] =
     AP001_evaluate ep @ AP002_evaluate ep @ AP003_evaluate ep @ AP004_evaluate ep @
     AP005_evaluate ep @ AP006_evaluate ep @ AP007_evaluate ep @ AP008_evaluate ep"
  by (simp add: engine_evaluate_def allRules_def rule_defs)

lemma api_orders_no_keyword:
  "filter (\<lambda>keyword. includes_str (toLowerCase ''/api/orders'') keyword) sensitiveKeywords = []"
  by (simp add: toLowerCase_def lower_char_def upper_letters_def lower_letters_def
        sensitiveKeywords_def)

text \<open>
  Claim C3. For an endpoint with method POST, route \<^verbatim>\<open>/api/orders\<close> and no middleware
  (empty middleware chain, guard names, roles and policies, not authenticated, not
  explicitly public, classification Public), of any framework, handler and location, the
  default catalogue of eight rules yields exactly three findings: AP001, AP004 with
  severity Critical, and AP008.
\<close>

theorem post_orders_findings:
  "length (initializeRules None) = 8
   \<and> map (\<lambda>f. (ruleId f, severity f))
       (engine_evaluate (initializeRules None)
          [\<lparr> route = ''/api/orders'', method = POST, handlerName = h, controllerName = c,
             type = t, location = loc,
             authorization =
               \<lparr> isAuthenticated = False, isExplicitlyPublic = False, roles = [], policies = [],
                 middlewareChain = [], guardNames = [], classification = Public \<rparr> \<rparr>])
     = [(''AP001'', High), (''AP004'', Critical), (''AP008'', High)]"
proof -
  have "length allRules = 8" by (simp add: allRules_def)
  then show ?thesis
    by (simp add: initializeRules_default engine_evaluate_single evaluate_defs createFinding_def
          isWriteMethod_def writeMethods_def maxRoles_def api_orders_no_keyword Let_def)
qed


section \<open>Suppression route patterns\<close>

text \<open>The pattern source that \<^verbatim>\<open>matchesRoutePattern\<close> hands to the constructor is always
  inside the fragment that \<open>compile\<close> reads.\<close>

lemma add_item_Unsupported: "(add_item i c = Unsupported) = (c = Unsupported)"
  by (cases c) auto

lemma escape_Nil: "escape_specials [] = []"
  by (simp add: escape_specials_def)

lemma escape_Cons:
  "escape_specials (c # r) =
     (if c \<in> set escaped_chars then backslash # c # escape_specials r else c # escape_specials r)"
  by (simp add: escape_specials_def)

lemma star_quest_not_escaped: "CHR ''*'' \<notin> set escaped_chars" "CHR ''?'' \<notin> set escaped_chars"
  by (simp_all add: escaped_chars_def backslash_def)

lemma take_quant_escape:
  "\<exists>r'. length r' \<le> length r \<and> snd (take_quant (escape_specials r @ ''$'')) = escape_specials r' @ ''$''"
proof (cases r)
  case Nil
  then show ?thesis by (auto simp: escape_Nil intro: exI[of _ "[]"])
next
  case (Cons a r1)
  note r = Cons
  show ?thesis
  proof (cases "a = CHR ''*'' \<or> a = CHR ''?''")
    case False
    then have "snd (take_quant (escape_specials r @ ''$'')) = escape_specials r @ ''$''"
      by (cases "escape_specials r1 @ ''$''")
         (auto simp: r escape_Cons backslash_def)
    then show ?thesis by (intro exI[of _ r]) simp
  next
    case True
    then have ne: "a \<notin> set escaped_chars" using star_quest_not_escaped by auto
    show ?thesis
    proof (cases r1)
      case Nil
      with True ne r have "snd (take_quant (escape_specials r @ ''$'')) = escape_specials [] @ ''$''"
        by (auto simp: escape_Cons escape_Nil)
      then show ?thesis by (intro exI[of _ "[]"]) simp
    next
      case (Cons b r2)
      show ?thesis
      proof (cases "b = CHR ''?''")
        case True
        with \<open>a = CHR ''*'' \<or> a = CHR ''?''\<close> ne r Cons star_quest_not_escaped
        have "snd (take_quant (escape_specials r @ ''$'')) = escape_specials r2 @ ''$''"
          by (auto simp: escape_Cons)
        then show ?thesis by (intro exI[of _ r2]) (simp add: r Cons)
      next
        case False
        with \<open>a = CHR ''*'' \<or> a = CHR ''?''\<close> ne r Cons
        have "snd (take_quant (escape_specials r @ ''$'')) = escape_specials r1 @ ''$''"
          by (auto simp: escape_Cons backslash_def)
        then show ?thesis by (intro exI[of _ r1]) (simp add: r)
      qed
    qed
  qed
qed

lemma escaped_in_syntax: "c \<in> set escaped_chars \<Longrightarrow> c \<in> set syntax_chars"
  by (auto simp: escaped_chars_def syntax_chars_def)

lemma compile_escape_supported: "compile (escape_specials s @ ''$'') \<noteq> Unsupported"
proof (induction "length s" arbitrary: s rule: less_induct)
  case less
  show ?case
  proof (cases s)
    case Nil
    then show ?thesis by (simp add: escape_Nil backslash_def)
  next
    case (Cons c r)
    obtain r' where r': "length r' \<le> length r"
      "snd (take_quant (escape_specials r @ ''$'')) = escape_specials r' @ ''$''"
      using take_quant_escape by blast
    with Cons have ih: "compile (escape_specials r' @ ''$'') \<noteq> Unsupported"
      using less[of r'] by simp
    show ?thesis
    proof (cases "c \<in> set escaped_chars")
      case True
      then have "c \<in> set syntax_chars" by (rule escaped_in_syntax)
      with True Cons ih r' show ?thesis
        by (simp add: escape_Cons backslash_def add_item_Unsupported)
    next
      case False
      with Cons ih r' show ?thesis
        by (auto simp: escape_Cons add_item_Unsupported escaped_chars_def)
    qed
  qed
qed

lemma compile_escaped_supported: "compile (route_pattern_source pattern) \<noteq> Unsupported"
  using compile_escape_supported
  by (simp add: route_pattern_source_def Let_def add_item_Unsupported backslash_def)

text \<open>What an anchored pattern of literal characters matches, and what a trailing
  repetition of one character class matches.\<close>

lemma regex_search_Bol_False: "regex_search (Bol # items) False s = None"
  by (induction s) simp_all

lemma regex_search_Bol: "regex_search (Bol # items) True s = seq_match (Bol # items) True s"
  by (cases s) (simp_all add: regex_search_Bol_False split: option.splits)

lemma first_some_single: "first_some [x] = x"
  by (cases x) simp_all

lemma first_some_iff: "(first_some xs \<noteq> None) = (\<exists>x \<in> set xs. x \<noteq> None)"
  by (induction xs rule: first_some.induct) auto

lemma seq_match_Eol: "(seq_match [Eol] b s \<noteq> None) = (s = [])"
  by simp

lemma seq_match_literal_prefix:
  "(seq_match (map lit w @ items) b s \<noteq> None)
     = (prefix w s \<and> seq_match items (b \<and> w = []) (drop (length w) s) \<noteq> None)"
proof (induction w arbitrary: s b)
  case Nil
  show ?case by simp
next
  case (Cons c w)
  show ?case
  proof (cases s)
    case Nil
    then show ?thesis by (simp add: lit_def)
  next
    case (Cons d r)
    with Cons.IH[of False r] show ?thesis
      by (auto simp: lit_def first_some_single split: option.splits)
  qed
qed

lemma seq_match_item_Eol:
  "(seq_match [a, Eol] b s \<noteq> None) = (\<exists>x \<in> set (item_splits a b s). snd x = [])"
proof -
  let ?F = "\<lambda>x. map_option (\<lambda>ms. fst x # ms) (seq_match [Eol] (b \<and> fst x = []) (snd x))"
  have "seq_match [a, Eol] b s = first_some (map ?F (item_splits a b s))"
    by (subst seq_match.simps(2)) (simp only: split_def)
  then have "(seq_match [a, Eol] b s \<noteq> None) = (first_some (map ?F (item_splits a b s)) \<noteq> None)"
    by (simp only:)
  also have "\<dots> = (\<exists>y \<in> set (map ?F (item_splits a b s)). y \<noteq> None)"
    by (rule first_some_iff)
  also have "\<dots> = (\<exists>x \<in> set (item_splits a b s). ?F x \<noteq> None)"
    by (simp only: set_map bex_simps image_iff)
  also have "\<dots> = (\<exists>x \<in> set (item_splits a b s). seq_match [Eol] (b \<and> fst x = []) (snd x) \<noteq> None)"
    by (simp only: option.map_disc_iff)
  also have "\<dots> = (\<exists>x \<in> set (item_splits a b s). snd x = [])"
    by (simp only: seq_match_Eol)
  finally show ?thesis .
qed

lemma set_repeat_splits:
  "set (repeat_splits k lo g s)
     = (\<lambda>i. (take i s, drop i s)) ` {lo..length (takeWhile (cclass_ok k) s)}"
  by (auto simp: repeat_splits_def Let_def simp del: upt_Suc)

lemma seq_match_star_Eol:
  "(seq_match [Atom k ZeroOrMore g, Eol] b s \<noteq> None) = list_all (cclass_ok k) s"
proof -
  have "(seq_match [Atom k ZeroOrMore g, Eol] b s \<noteq> None)
          = (\<exists>i \<le> length (takeWhile (cclass_ok k) s). drop i s = [])"
    unfolding seq_match_item_Eol by (auto simp: set_repeat_splits)
  also have "\<dots> = (length s \<le> length (takeWhile (cclass_ok k) s))"
    by auto
  also have "\<dots> = (takeWhile (cclass_ok k) s = s)"
    by (metis length_takeWhile_le le_antisym takeWhile_eq_take take_all_iff order_refl)
  also have "\<dots> = list_all (cclass_ok k) s"
    by (simp add: takeWhile_eq_all_conv list_all_iff)
  finally show ?thesis .
qed

lemma regex_test_anchored:
  "regex_test (Bol # map lit w @ items) s
     = (prefix w s \<and> seq_match items False (drop (length w) s) \<noteq> None)"
  if "w \<noteq> []"
proof -
  have "seq_match (Bol # map lit w @ items) True s
          = map_option (\<lambda>ms. [] # ms) (seq_match (map lit w @ items) True s)"
    by (simp add: first_some_single)
  then show ?thesis
    using seq_match_literal_prefix[of w items True s] that
    by (simp add: regex_test_def regex_search_Bol del: seq_match.simps)
qed

lemma compile_single_star:
  "compile (route_pattern_source ''/api/*'') = Compiled (Bol # map lit ''/api/[^/]+'' @ [Eol])"
  by (simp add: lit_def) code_simp

lemma compile_double_star:
  "compile (route_pattern_source ''/api/**'')
     = Compiled (Bol # map lit ''/api/'' @ [Atom (Lit CHR ''.'') ZeroOrMore True, Eol])"
  by (simp add: lit_def) code_simp

lemma single_star_literal: "matchesRoutePattern ''/api/*'' r = (r = ''/api/[^/]+'')"
proof -
  have "regex_test (Bol # map lit ''/api/[^/]+'' @ [Eol]) r
          = (prefix ''/api/[^/]+'' r \<and> seq_match [Eol] False (drop (length ''/api/[^/]+'') r) \<noteq> None)"
    by (rule regex_test_anchored) simp
  then have "matchesRoutePattern ''/api/*'' r
          = (prefix ''/api/[^/]+'' r \<and> drop (length ''/api/[^/]+'') r = [])"
    unfolding matchesRoutePattern_def compile_single_star
    by (simp only: compiled.case seq_match_Eol)
  also have "\<dots> = (r = ''/api/[^/]+'')"
    by (auto simp: prefix_def)
  finally show ?thesis .
qed

lemma double_star_dots:
  "matchesRoutePattern ''/api/**'' r
     = (prefix ''/api/'' r \<and> list_all (\<lambda>c. c = CHR ''.'') (drop (length ''/api/'') r))"
proof -
  have c: "cclass_ok (Lit CHR ''.'') = (\<lambda>c. c = CHR ''.'')"
    by (rule ext) simp
  have "regex_test (Bol # map lit ''/api/'' @ [Atom (Lit CHR ''.'') ZeroOrMore True, Eol]) r
          = (prefix ''/api/'' r
             \<and> seq_match [Atom (Lit CHR ''.'') ZeroOrMore True, Eol] False (drop (length ''/api/'') r) \<noteq> None)"
    by (rule regex_test_anchored) simp
  then show ?thesis
    unfolding matchesRoutePattern_def compile_double_star
    by (simp only: compiled.case seq_match_star_Eol c)
qed

text \<open>
  Claim C5. In route-pattern matching, \<^verbatim>\<open>**\<close> is meant to match any remaining path
  and a single \<^verbatim>\<open>*\<close> exactly one path segment, anchored on the full route, so that
  \<^verbatim>\<open>/api/*\<close> matches \<^verbatim>\<open>/api/users\<close> and \<^verbatim>\<open>/api/**\<close> matches \<^verbatim>\<open>/api/a/b\<close>. The code
  escapes the special characters after it has put in the expansions \<^verbatim>\<open>[^/]+\<close> and
  \<^verbatim>\<open>.*\<close>, so the expansions are escaped too: the source built from \<^verbatim>\<open>/api/*\<close> is
  \<^verbatim>\<open>^/api/\[\^/\]\+$\<close>, which matches the literal text \<^verbatim>\<open>/api/[^/]+\<close> and no other
  route, so not \<^verbatim>\<open>/api/users\<close>; the source built from \<^verbatim>\<open>/api/**\<close> is \<^verbatim>\<open>^/api/\.*$\<close>,
  which matches \<^verbatim>\<open>/api/\<close> followed by dots only, so not \<^verbatim>\<open>/api/a/b\<close>.
\<close>

theorem route_pattern_wildcards_escaped:
  "route_pattern_source ''/api/*''
     = ''^/api/'' @ [backslash] @ ''['' @ [backslash] @ ''^/'' @ [backslash] @ '']'' @ [backslash] @ ''+$''
   \<and> route_pattern_source ''/api/**'' = ''^/api/'' @ [backslash] @ ''.*$''
   \<and> matchesRoutePattern ''/api/*'' ''/api/users'' = False
   \<and> matchesRoutePattern ''/api/*'' ''/api/[^/]+'' = True
   \<and> matchesRoutePattern ''/api/*'' ''/api/a/b'' = False
   \<and> matchesRoutePattern ''/api/**'' ''/api/a/b'' = False
   \<and> matchesRoutePattern ''/api/**'' ''/api/..'' = True
   \<and> (\<forall>r. matchesRoutePattern ''/api/*'' r = (r = ''/api/[^/]+''))
   \<and> (\<forall>r. matchesRoutePattern ''/api/**'' r
            = (prefix ''/api/'' r \<and> list_all (\<lambda>c. c = CHR ''.'') (drop (length ''/api/'') r)))"
proof -
  have "route_pattern_source ''/api/*''
     = ''^/api/'' @ [backslash] @ ''['' @ [backslash] @ ''^/'' @ [backslash] @ '']'' @ [backslash] @ ''+$''
   \<and> route_pattern_source ''/api/**'' = ''^/api/'' @ [backslash] @ ''.*$''
   \<and> matchesRoutePattern ''/api/*'' ''/api/users'' = False
   \<and> matchesRoutePattern ''/api/*'' ''/api/[^/]+'' = True
   \<and> matchesRoutePattern ''/api/*'' ''/api/a/b'' = False
   \<and> matchesRoutePattern ''/api/**'' ''/api/a/b'' = False
   \<and> matchesRoutePattern ''/api/**'' ''/api/..'' = True"
    by code_simp
  then show ?thesis
    using single_star_literal double_star_dots by blast
qed


section \<open>Role extraction from a middleware name\<close>

text \<open>A sequence with a literal character among its items matches only where the input
  has that character: the role pattern matches no name without a closing bracket, so a
  name with neither a closing bracket nor a dot gives no role.\<close>

lemma item_splits_append: "x \<in> set (item_splits i b s) \<Longrightarrow> s = fst x @ snd x"
  by (induction i b s rule: item_splits.induct)
     (auto simp: repeat_splits_def Let_def split: list.splits if_splits simp del: upt_Suc)

lemma seq_match_literal_char:
  "seq_match items b s \<noteq> None \<Longrightarrow> Atom (Lit c) Once g \<in> set items \<Longrightarrow> c \<in> set s"
proof (induction items arbitrary: b s)
  case Nil
  then show ?case by simp
next
  case (Cons i items)
  let ?F = "\<lambda>x. map_option (\<lambda>ms. fst x # ms) (seq_match items (b \<and> fst x = []) (snd x))"
  have "seq_match (i # items) b s = first_some (map ?F (item_splits i b s))"
    by (subst seq_match.simps(2)) (simp only: split_def)
  with Cons.prems(1) have "\<exists>y \<in> set (map ?F (item_splits i b s)). y \<noteq> None"
    by (simp only: first_some_iff)
  then obtain x where x: "x \<in> set (item_splits i b s)"
    "seq_match items (b \<and> fst x = []) (snd x) \<noteq> None"
    by (auto simp del: seq_match.simps)
  from x(1) have s: "s = fst x @ snd x" by (rule item_splits_append)
  show ?case
  proof (cases "i = Atom (Lit c) Once g")
    case True
    with x(1) have "fst x = [c]"
      by (auto split: list.splits if_splits)
    with s show ?thesis by (metis list.set_intros(1) append_Cons)
  next
    case False
    with Cons.prems(2) have "Atom (Lit c) Once g \<in> set items" by simp
    from Cons.IH[OF x(2) this] have "c \<in> set (snd x)" .
    with s show ?thesis by (metis Un_iff set_append)
  qed
qed

lemma regex_search_literal_char:
  "regex_search items b s \<noteq> None \<Longrightarrow> Atom (Lit c) Once g \<in> set items \<Longrightarrow> c \<in> set s"
proof (induction items b s rule: regex_search.induct)
  case (1 items at_start)
  then show ?case using seq_match_literal_char by fastforce
next
  case (2 items at_start c' r)
  show ?case
  proof (cases "seq_match items at_start (c' # r)")
    case None
    with 2 show ?thesis by simp
  next
    case (Some ms)
    then have "seq_match items at_start (c' # r) \<noteq> None" by simp
    from seq_match_literal_char[OF this 2(3)] show ?thesis .
  qed
qed

lemma role_regex_needs_bracket:
  assumes "CHR '']'' \<notin> set name"
  shows "regex_search role_regex True name = None"
proof (rule ccontr)
  assume "regex_search role_regex True name \<noteq> None"
  from regex_search_literal_char[OF this, of "CHR '']''" True]
  have "CHR '']'' \<in> set name" by (simp add: role_regex_def)
  with assms show False by simp
qed

lemma no_bracket_no_argument_roles:
  "CHR '']'' \<notin> set name \<Longrightarrow> \<not> includes_str name ''.'' \<Longrightarrow> extractRolesFromMiddleware name = []"
  by (simp add: extractRolesFromMiddleware_def role_regex_needs_bracket)


text \<open>
  The equations of \<open>split_on\<close> in a form that computes the rest of the string once.
\<close>

lemma split_on_not_Nil: "split_on d s \<noteq> []"
  by (cases s) simp_all

lemma split_on_once [code]:
  "split_on d [] = [[]]"
  "split_on d (c # cs) =
     (if c = d then [] # split_on d cs
      else (case split_on d cs of [] \<Rightarrow> [[c]] | x # xs \<Rightarrow> (c # x) # xs))"
  using split_on_not_Nil[of d cs] by (simp_all split: list.split)

lemma no_bracket_falls_back:
  assumes "CHR '']'' \<notin> set name"
  shows "extractRolesFromMiddleware name =
           (if includes_str name ''.''
            then (if \<not> matchesPatterns (last (split_on CHR ''.'' name)) AUTH_MIDDLEWARE_PATTERNS
                  then [last (split_on CHR ''.'' name)] else [])
            else [])"
  using assms by (simp add: extractRolesFromMiddleware_def role_regex_needs_bracket Let_def)

text \<open>
  Claim C7. For a call-shaped middleware name with quoted literal arguments, role
  extraction is meant to give the quoted strings as the roles, before it falls back to
  the last dotted segment: \<^verbatim>\<open>requireRole('admin')\<close> should give \<^verbatim>\<open>admin\<close>, and
  \<^verbatim>\<open>hasRole(['user', 'admin'])\<close> should give \<^verbatim>\<open>user\<close> and \<^verbatim>\<open>admin\<close>. Through the public
  \<^verbatim>\<open>extract\<close> it does not. Role extraction is entered only for a name whose last dotted
  segment is a role word. For such a name with quoted arguments, \<^verbatim>\<open>acl('admin').can\<close> or
  \<^verbatim>\<open>acl(['user', 'admin']).can\<close>, the pattern does not match, since it wants a closing
  bracket right after the group and its group excludes quotes: the role is the last
  dotted segment \<^verbatim>\<open>can\<close>, and the quoted arguments are lost. The two names of the
  claim have no dot and carry their arguments, so no anchored role pattern matches them:
  the extraction gives no role and no authentication for them. By lemma
  \<open>no_bracket_falls_back\<close> no name without a closing bracket ever gives its arguments.
  What the pattern does match is a bracket with unquoted text, \<^verbatim>\<open>acl([user, admin]).can\<close>,
  with the roles \<^verbatim>\<open>[user\<close> and \<^verbatim>\<open>admin\<close>.
\<close>

theorem quoted_arguments_not_extracted:
  "roles (express_extract [''acl('' @ sq @ ''admin'' @ sq @ '').can''] None) = [''can'']
   \<and> isAuthenticated (express_extract [''acl('' @ sq @ ''admin'' @ sq @ '').can''] None) = True
   \<and> roles (express_extract
              [''acl(['' @ sq @ ''user'' @ sq @ '', '' @ sq @ ''admin'' @ sq @ '']).can''] None)
       = [''can'']
   \<and> roles (express_extract [''requireRole('' @ sq @ ''admin'' @ sq @ '')''] None) = []
   \<and> isAuthenticated (express_extract [''requireRole('' @ sq @ ''admin'' @ sq @ '')''] None) = False
   \<and> roles (express_extract
              [''hasRole(['' @ sq @ ''user'' @ sq @ '', '' @ sq @ ''admin'' @ sq @ ''])''] None)
       = []
   \<and> isAuthenticated
        (express_extract
           [''hasRole(['' @ sq @ ''user'' @ sq @ '', '' @ sq @ ''admin'' @ sq @ ''])''] None)
       = False
   \<and> extractRolesFromMiddleware (''acl('' @ sq @ ''admin'' @ sq @ '').can'') = [''can'']
   \<and> roles (express_extract [''acl([user, admin]).can''] None) = [''[user'', ''admin'']"
  by code_simp


section \<open>Mount registry lookups\<close>

lemma find_as_filter:
  "find P xs = (case filter P xs of [] \<Rightarrow> None | x # ys \<Rightarrow> Some x)"
  by (induction xs) auto

lemma scan_mounts_first:
  "scan_mounts rm rn =
     (case concat (map (\<lambda>(k, mounts). map mount_prefix (filter (\<lambda>m. routerName m = rn) mounts)) rm) of
        [] \<Rightarrow> '''' | p # ps \<Rightarrow> p)"
proof (induction rm)
  case Nil
  show ?case by simp
next
  case (Cons entry rest)
  obtain k mounts where e: "entry = (k, mounts)" by (cases entry)
  show ?case
  proof (cases "filter (\<lambda>m. routerName m = rn) mounts")
    case Nil
    with Cons e show ?thesis by (simp add: find_as_filter)
  next
    case (Cons m ms)
    with e show ?thesis by (simp add: find_as_filter)
  qed
qed

lemma getRouterPrefix_first:
  "getRouterPrefix reg f r = (case matching_prefixes reg r of [] \<Rightarrow> '''' | p # ps \<Rightarrow> p)"
  by (simp add: getRouterPrefix_def matching_prefixes_def scan_mounts_first)

lemma matching_prefixes_iff:
  "(p \<in> set (matching_prefixes reg r)) =
     (\<exists>k ms m. (k, ms) \<in> set (routerMounts reg) \<and> m \<in> set ms \<and> routerName m = r \<and> mount_prefix m = p)"
  by (auto simp: matching_prefixes_def)

lemma map_of_map_set: "map_of (map_set k v m) = (map_of m)(k \<mapsto> v)"
  by (induction m) (auto simp: fun_eq_iff)

lemma map_set_member: "(k, v) \<in> set (map_set k v m)"
  by (induction m) auto

lemma push_at_contains:
  "\<exists>ms. (key, ms) \<in> set (push_at key x m) \<and> x \<in> set ms"
proof (cases "map_of m key")
  case None
  then have "push_at key x m = map_set key [x] (map_set key [] m)"
    by (simp add: push_at_def map_of_map_set)
  then have "(key, [x]) \<in> set (push_at key x m)" by (simp add: map_set_member)
  then show ?thesis by (intro exI[of _ "[x]"]) simp
next
  case (Some xs)
  then have "push_at key x m = map_set key (xs @ [x]) m"
    by (simp add: push_at_def)
  then have "(key, xs @ [x]) \<in> set (push_at key x m)" by (simp add: map_set_member)
  then show ?thesis by (intro exI[of _ "xs @ [x]"]) simp
qed

lemma registered_mount_found:
  "pre \<in> set (matching_prefixes (registerRouterMount reg f1 app pre r) r)"
proof -
  obtain ms where ms:
    "(makeKey f1 app, ms)
       \<in> set (push_at (makeKey f1 app) \<lparr> mount_prefix = pre, routerName = r \<rparr> (routerMounts reg))"
    "\<lparr> mount_prefix = pre, routerName = r \<rparr> \<in> set ms"
    using push_at_contains[of "makeKey f1 app" "\<lparr> mount_prefix = pre, routerName = r \<rparr>"
            "routerMounts reg"]
    by auto
  have "\<exists>k ms m. (k, ms) \<in> set (routerMounts (registerRouterMount reg f1 app pre r))
            \<and> m \<in> set ms \<and> routerName m = r \<and> mount_prefix m = pre"
    using ms
    by (intro exI[of _ "makeKey f1 app"] exI[of _ ms]
          exI[of _ "\<lparr> mount_prefix = pre, routerName = r \<rparr>"])
       (simp add: registerRouterMount_def)
  then show ?thesis by (simp only: matching_prefixes_iff)
qed

lemma getAllMiddlewares_unknown:
  "map_of (groups reg) (makeKey f v) = None \<Longrightarrow> getAllMiddlewares reg f v = []"
  by (simp add: getAllMiddlewares_def getGroup_def)

text \<open>
  Claim C6. The router-prefix lookup does not depend on the requesting file: for every
  registry and router identifier \<open>r\<close>, \<open>getRouterPrefix\<close> returns the same result for
  every file argument. When some registered mount has the router identifier \<open>r\<close>, the result
  is the prefix of such a mount (the first in the iteration order of the map), whatever
  file registered it; a mount registered from one file is found from any other file. When
  no mount has it, the result is the empty string. The lookups are total functions: no
  branch raises. The middleware lookup of a (file, identifier) key that is not in the map
  gives the empty list.
\<close>

theorem mount_lookup_ignores_file:
  "getRouterPrefix reg f r = getRouterPrefix reg f' r
   \<and> getRouterPrefix reg f r = (case matching_prefixes reg r of [] \<Rightarrow> '''' | p # ps \<Rightarrow> p)
   \<and> (matching_prefixes reg r \<noteq> [] \<longrightarrow> getRouterPrefix reg f r \<in> set (matching_prefixes reg r))
   \<and> (matching_prefixes reg r = [] \<longrightarrow> getRouterPrefix reg f r = '''')
   \<and> ((p \<in> set (matching_prefixes reg r)) =
        (\<exists>k ms m. (k, ms) \<in> set (routerMounts reg) \<and> m \<in> set ms \<and> routerName m = r
                  \<and> mount_prefix m = p))
   \<and> pre \<in> set (matching_prefixes (registerRouterMount reg f1 app pre r) r)
   \<and> getRouterPrefix (registerRouterMount empty_registry f1 app pre r) f2 r = pre
   \<and> (map_of (groups reg) (makeKey f v) = None \<longrightarrow> getAllMiddlewares reg f v = [])
   \<and> getAllMiddlewares empty_registry f v = []"
proof -
  have 1: "getRouterPrefix reg f r = getRouterPrefix reg f' r"
    by (simp add: getRouterPrefix_def)
  have 2: "getRouterPrefix (registerRouterMount empty_registry f1 app pre r) f2 r = pre"
    by (simp add: getRouterPrefix_def registerRouterMount_def empty_registry_def push_at_def)
  have 3: "getAllMiddlewares empty_registry f v = []"
    by (simp add: getAllMiddlewares_def getGroup_def empty_registry_def)
  have 4: "matching_prefixes reg r \<noteq> [] \<longrightarrow> getRouterPrefix reg f r \<in> set (matching_prefixes reg r)"
    by (simp add: getRouterPrefix_first split: list.splits)
  have 5: "matching_prefixes reg r = [] \<longrightarrow> getRouterPrefix reg f r = ''''"
    by (simp add: getRouterPrefix_first)
  from 1 2 3 4 5 show ?thesis
    using getRouterPrefix_first[of reg f r] matching_prefixes_iff[of p reg r]
      registered_mount_found[of pre reg f1 app r] getAllMiddlewares_unknown[of reg f v]
    by blast
qed

text \<open>
  Witness for claim C6: with the mounts of \<open>userRouter\<close> (from \<^verbatim>\<open>src/app.ts\<close>) and
  \<open>adminRouter\<close> (from \<^verbatim>\<open>src/admin.ts\<close>) registered, the prefix of \<open>adminRouter\<close> is
  \<^verbatim>\<open>/admin\<close> from either of two other files, the prefix of the unknown \<open>orderRouter\<close> is
  empty, and the middleware lookup of an unknown key is empty.
\<close>

theorem mount_lookup_ignores_file_witness:
  "matching_prefixes two_mounts ''adminRouter'' \<noteq> []
   \<and> getRouterPrefix two_mounts ''src/routes/users.ts'' ''adminRouter'' = ''/admin''
   \<and> getRouterPrefix two_mounts ''src/admin.ts'' ''adminRouter'' = ''/admin''
   \<and> matching_prefixes two_mounts ''orderRouter'' = []
   \<and> getRouterPrefix two_mounts ''src/app.ts'' ''orderRouter'' = ''''
   \<and> map_of (groups two_mounts) (makeKey ''src/app.ts'' ''app'') = None
   \<and> getAllMiddlewares two_mounts ''src/app.ts'' ''app'' = []"
proof -
  have v1: "matching_prefixes two_mounts ''adminRouter'' = [''/admin'']"
    by (simp add: two_mounts_def matching_prefixes_def registerRouterMount_def empty_registry_def
          push_at_def makeKey_def)
  have v2: "matching_prefixes two_mounts ''orderRouter'' = []"
    by (simp add: two_mounts_def matching_prefixes_def registerRouterMount_def empty_registry_def
          push_at_def makeKey_def)
  have v3: "map_of (groups two_mounts) (makeKey ''src/app.ts'' ''app'') = None"
    by (simp add: two_mounts_def registerRouterMount_def empty_registry_def)
  note A = mount_lookup_ignores_file[where reg = two_mounts and f = "''src/routes/users.ts''"
        and r = "''adminRouter''" and f' = "''src/admin.ts''" and p = "''/admin''"
        and pre = "''/x''" and ?f1.0 = "''a.ts''" and app = "''app''" and ?f2.0 = "''b.ts''"
        and v = "''app''"]
  note B = mount_lookup_ignores_file[where reg = two_mounts and f = "''src/app.ts''"
        and r = "''orderRouter''" and f' = "''src/admin.ts''" and p = "''/admin''"
        and pre = "''/x''" and ?f1.0 = "''a.ts''" and app = "''app''" and ?f2.0 = "''b.ts''"
        and v = "''app''"]
  from A have "getRouterPrefix two_mounts ''src/routes/users.ts'' ''adminRouter''
                 = (case matching_prefixes two_mounts ''adminRouter'' of [] \<Rightarrow> '''' | p # ps \<Rightarrow> p)"
    by blast
  with v1 have a1: "getRouterPrefix two_mounts ''src/routes/users.ts'' ''adminRouter'' = ''/admin''"
    by simp
  from A have "getRouterPrefix two_mounts ''src/routes/users.ts'' ''adminRouter''
                 = getRouterPrefix two_mounts ''src/admin.ts'' ''adminRouter''"
    by blast
  with a1 have a2: "getRouterPrefix two_mounts ''src/admin.ts'' ''adminRouter'' = ''/admin''"
    by simp
  from B v2 have b1: "getRouterPrefix two_mounts ''src/app.ts'' ''orderRouter'' = ''''"
    by blast
  from B v3 have b2: "getAllMiddlewares two_mounts ''src/app.ts'' ''app'' = []"
    by blast
  from v1 v2 v3 a1 a2 b1 b2 show ?thesis by simp
qed


section \<open>NestJS authorization: what each step changes\<close>

lemma push_guard_fields:
  "guardNames (push_guard t a) = guardNames a @ [t]"
  "isAuthenticated (push_guard t a) = (isAuthenticated a \<or> isAuthGuard t)"
  "isExplicitlyPublic (push_guard t a) = isExplicitlyPublic a"
  "roles (push_guard t a) = roles a"
  "policies (push_guard t a) = policies a"
  by (auto simp: push_guard_def Let_def)

lemma guard_arg_fields:
  "guardNames (guard_arg e a) = guardNames a @ arg_guard_names e"
  "isAuthenticated (guard_arg e a) = (isAuthenticated a \<or> list_ex isAuthGuard (arg_guard_names e))"
  by (induction e a rule: guard_arg.induct) (auto simp: push_guard_fields)

lemma guard_args_fields:
  "guardNames (foldl (\<lambda>a arg. guard_arg arg a) a args) = guardNames a @ method_guard_names args
   \<and> isAuthenticated (foldl (\<lambda>a arg. guard_arg arg a) a args)
       = (isAuthenticated a \<or> list_ex isAuthGuard (method_guard_names args))"
  by (induction args arbitrary: a) (auto simp: guard_arg_fields method_guard_names_def)

lemma push_role_fields:
  "guardNames (push_role e a) = guardNames a"
  "isAuthenticated a \<Longrightarrow> isAuthenticated (push_role e a)"
  by (auto simp: push_role_def)

lemma push_policy_fields:
  "guardNames (push_policy e a) = guardNames a"
  "isAuthenticated a \<Longrightarrow> isAuthenticated (push_policy e a)"
  by (auto simp: push_policy_def)

lemma push_roles_fields:
  "guardNames (foldl (\<lambda>a elem. push_role elem a) a es) = guardNames a
   \<and> (isAuthenticated a \<longrightarrow> isAuthenticated (foldl (\<lambda>a elem. push_role elem a) a es))"
  by (induction es arbitrary: a) (auto simp: push_role_fields)

lemma push_policies_fields:
  "guardNames (foldl (\<lambda>a elem. push_policy elem a) a es) = guardNames a
   \<and> (isAuthenticated a \<longrightarrow> isAuthenticated (foldl (\<lambda>a elem. push_policy elem a) a es))"
  by (induction es arbitrary: a) (auto simp: push_policy_fields)

lemma role_arg_fields:
  "guardNames (role_arg e a) = guardNames a"
  "isAuthenticated a \<Longrightarrow> isAuthenticated (role_arg e a)"
  using push_roles_fields[of "push_role e a" "getArrayLiteralElements e"]
  by (auto simp: role_arg_def push_role_fields)

lemma policy_arg_fields:
  "guardNames (policy_arg e a) = guardNames a"
  "isAuthenticated a \<Longrightarrow> isAuthenticated (policy_arg e a)"
  using push_policies_fields[of "push_policy e a" "getArrayLiteralElements e"]
  by (auto simp: policy_arg_def push_policy_fields)

lemma role_args_fields:
  "guardNames (foldl (\<lambda>a arg. role_arg arg a) a args) = guardNames a
   \<and> (isAuthenticated a \<longrightarrow> isAuthenticated (foldl (\<lambda>a arg. role_arg arg a) a args))"
  by (induction args arbitrary: a) (auto simp: role_arg_fields)

lemma policy_args_fields:
  "guardNames (foldl (\<lambda>a arg. policy_arg arg a) a args) = guardNames a
   \<and> (isAuthenticated a \<longrightarrow> isAuthenticated (foldl (\<lambda>a arg. policy_arg arg a) a args))"
  by (induction args arbitrary: a) (auto simp: policy_arg_fields)

lemma UseGuards_not_other:
  "''UseGuards'' \<notin> set PUBLIC_DECORATORS"
  "''UseGuards'' \<notin> set ROLE_DECORATORS" "''UseGuards'' \<notin> set POLICY_DECORATORS"
  by (simp_all add: PUBLIC_DECORATORS_def ROLE_DECORATORS_def POLICY_DECORATORS_def)

lemma processDecorator_guardNames:
  "guardNames (processDecorator d a) = guardNames a @ decorator_guard_names d"
proof (cases "getDecoratorName d = Some ''UseGuards''")
  case True
  then show ?thesis
    by (simp add: processDecorator_def decorator_guard_names_def truthy_def UseGuards_not_other
          guard_args_fields)
next
  case False
  then show ?thesis
    by (auto simp: processDecorator_def decorator_guard_names_def truthy_def Let_def
          role_args_fields policy_args_fields split: option.splits)
qed

lemma processDecorator_keeps_auth:
  "isAuthenticated a \<Longrightarrow> isAuthenticated (processDecorator d a)"
  by (auto simp: processDecorator_def Let_def guard_args_fields role_args_fields policy_args_fields)

lemma processDecorators_fields:
  "guardNames (foldl (\<lambda>a d. processDecorator d a) a ds) = guardNames a @ concat (map decorator_guard_names ds)
   \<and> (isAuthenticated a \<longrightarrow> isAuthenticated (foldl (\<lambda>a d. processDecorator d a) a ds))"
  by (induction ds arbitrary: a) (auto simp: processDecorator_guardNames processDecorator_keeps_auth)

lemma class_guards_fields:
  "guardNames (foldl (\<lambda>a g. class_guard g a) a gs) = guardNames a @ filter isAuthGuard gs
   \<and> isAuthenticated (foldl (\<lambda>a g. class_guard g a) a gs) = (isAuthenticated a \<or> list_ex isAuthGuard gs)"
  by (induction gs arbitrary: a) (auto simp: class_guard_def)

lemma extract_guardNames:
  "guardNames (nestjs_extract ds (Some \<lparr> classGuards = Some gs, classRoles = cr, isPublic = ip \<rparr>))
     = filter isAuthGuard gs @ concat (map decorator_guard_names ds)"
  by (auto simp: nestjs_extract_def Let_def processDecorators_fields class_guards_fields
        createDefaultAuthorizationInfo_def split: option.splits)

lemma extract_authenticated:
  assumes "classGuards ctx = Some gs" "list_ex isAuthGuard gs"
  shows "isAuthenticated (nestjs_extract ds (Some ctx))"
proof -
  have key: "\<And>a. isAuthenticated a \<Longrightarrow> isAuthenticated (foldl (\<lambda>a d. processDecorator d a) a ds)"
    using processDecorators_fields by blast
  show ?thesis
    using assms
    by (auto simp: nestjs_extract_def Let_def class_guards_fields split: option.splits intro!: key)
qed

lemma extract_public:
  "list_ex is_public_decorator ds \<Longrightarrow> isExplicitlyPublic (nestjs_extract ds ctx)"
  by (simp add: nestjs_extract_def Let_def)

lemma extract_classification:
  "classification (nestjs_extract ds ctx) = determineClassification (nestjs_extract ds ctx)"
  by (simp add: nestjs_extract_def Let_def determineClassification_def)

section \<open>Guarded class, public method\<close>

lemma class_decorator_step_guards:
  "guards (class_decorator_step d info) =
     guards info @
     (if getDecoratorName d = Some ''UseGuards''
      then concat (map (\<lambda>arg. case arg of Identifier t \<Rightarrow> [t] | _ \<Rightarrow> [])
                       (getDecoratorArguments d))
      else [])"
  by (simp add: class_decorator_step_def Let_def)

lemma class_decorator_steps_guards:
  "guards (foldl (\<lambda>info d. class_decorator_step d info) info ds) =
     guards info @
     concat (map (\<lambda>d. if getDecoratorName d = Some ''UseGuards''
                       then concat (map (\<lambda>arg. case arg of Identifier t \<Rightarrow> [t] | _ \<Rightarrow> [])
                                        (getDecoratorArguments d))
                       else []) ds)"
  by (induction ds arbitrary: info) (simp_all add: class_decorator_step_guards)

lemma identifier_guards_ex:
  "list_ex isAuthGuard (concat (map (\<lambda>arg. case arg of Identifier t \<Rightarrow> [t] | _ \<Rightarrow> []) args))
     = list_ex is_auth_guard_identifier args"
  by (induction args) (auto simp: is_auth_guard_identifier_def split: Expression.splits)

lemma class_guards_iff:
  "list_ex isAuthGuard (guards (extractClassAuthInfo ds)) = has_identifier_auth_guard ds"
proof -
  have "list_ex isAuthGuard
          (concat (map (\<lambda>d. if getDecoratorName d = Some ''UseGuards''
                            then concat (map (\<lambda>arg. case arg of Identifier t \<Rightarrow> [t] | _ \<Rightarrow> [])
                                             (getDecoratorArguments d))
                            else []) ds))
        = has_identifier_auth_guard ds"
    by (induction ds) (auto simp: has_identifier_auth_guard_def identifier_guards_ex)
  then show ?thesis
    by (simp add: extractClassAuthInfo_def class_decorator_steps_guards)
qed

lemma processMethod_fields:
  assumes "processMethod m fp cp cn classAuth = Some e"
  shows "authorization e =
           nestjs_extract (method_decorators m)
             (Some \<lparr> classGuards = Some (guards classAuth),
                     classRoles = Some (class_roles classAuth),
                     isPublic = Some (class_isPublic classAuth) \<rparr>)"
    and "type e = NestJS"
  using assms by (auto simp: processMethod_def createEndpoint_def split: option.splits)

lemma processClass_member:
  assumes "m \<in> set (members c)"
    and "find (\<lambda>d. getDecoratorName d = Some ''Controller'') (class_decorators c) = Some cd"
    and "processMethod m fp (extractControllerPath cd)
           (case class_name c of None \<Rightarrow> ''UnknownController'' | Some n \<Rightarrow> n)
           (extractClassAuthInfo (class_decorators c)) = Some e"
  shows "e \<in> set (processClass c fp)"
proof -
  have "e \<in> set (case processMethod m fp (extractControllerPath cd)
                       (case class_name c of None \<Rightarrow> ''UnknownController'' | Some n \<Rightarrow> n)
                       (extractClassAuthInfo (class_decorators c)) of
                    None \<Rightarrow> [] | Some e \<Rightarrow> [e])"
    using assms(3) by simp
  with assms(1) show ?thesis
    unfolding processClass_def assms(2) by (auto simp: Let_def)
qed

text \<open>
  Claim C4, as the code has it. Take a controller class one of whose decorators is
  \<^verbatim>\<open>@UseGuards\<close> with an identifier argument that matches an auth-guard pattern, and a
  method of it that carries a public-marker decorator and a verb decorator. The endpoint
  of the method is among the endpoints of the class. Its authorization is explicitly
  public and still authenticated, whatever the verb and the other decorators are. Its
  classification is never Public: it is PolicyRestricted when a policy is extracted,
  otherwise RoleRestricted when a role is extracted, otherwise Authenticated. AP001, AP004,
  AP007 and AP008 do not fire. The findings of the default catalogue are: the finding of
  AP002 (High) exactly when the verb is a write method, then the finding of AP003
  (Medium), always, then what AP005 and AP006 find in the extracted roles. So with no
  extracted role the findings are AP003 alone on a verb that is no write method, and
  AP002 followed by AP003 on a write method.
\<close>

theorem guarded_class_public_method:
  assumes "has_identifier_auth_guard (class_decorators c)"
    and "m \<in> set (members c)"
    and "list_ex is_public_decorator (method_decorators m)"
    and "find (\<lambda>d. getDecoratorName d = Some ''Controller'') (class_decorators c) = Some cd"
    and "processMethod m fp (extractControllerPath cd)
           (case class_name c of None \<Rightarrow> ''UnknownController'' | Some n \<Rightarrow> n)
           (extractClassAuthInfo (class_decorators c)) = Some e"
  shows "e \<in> set (processClass c fp)
     \<and> isExplicitlyPublic (authorization e)
     \<and> isAuthenticated (authorization e)
     \<and> classification (authorization e)
         = (if policies (authorization e) \<noteq> [] then PolicyRestricted
            else if roles (authorization e) \<noteq> [] then RoleRestricted
            else Authenticated)
     \<and> classification (authorization e) \<noteq> Public
     \<and> AP001_evaluate e = [] \<and> AP004_evaluate e = []
     \<and> AP007_evaluate e = [] \<and> AP008_evaluate e = []
     \<and> engine_evaluate (initializeRules None) [e] =
         (if isWriteMethod (method e)
          then [createFinding ''AP002'' ''AllowAnonymous on write operation'' High
                  (method_route e @ '' is a write operation explicitly marked as public'')
                  e (location e) (AP002_recommendation e)]
          else [])
         @ [createFinding ''AP003'' ''Controller/action authorization conflict'' Medium
              (method_route e @ '' has @Public overriding class-level guards'')
              e (location e) AP003_recommendation]
         @ AP005_evaluate e @ AP006_evaluate e
     \<and> (roles (authorization e) = [] \<longrightarrow>
          map (\<lambda>f. (ruleId f, severity f)) (engine_evaluate (initializeRules None) [e])
            = (if isWriteMethod (method e)
               then [(''AP002'', High), (''AP003'', Medium)]
               else [(''AP003'', Medium)]))"
proof -
  note a = processMethod_fields[OF assms(5)]
  have g: "list_ex isAuthGuard (guards (extractClassAuthInfo (class_decorators c)))"
    using assms(1) by (simp add: class_guards_iff)
  have mem: "e \<in> set (processClass c fp)"
    using assms(2,4,5) by (rule processClass_member)
  have pub: "isExplicitlyPublic (authorization e)"
    using assms(3) by (simp add: a extract_public)
  have auth: "isAuthenticated (authorization e)"
    unfolding a by (rule extract_authenticated[OF _ g]) simp
  have "classification (authorization e) = determineClassification (authorization e)"
    by (simp add: a extract_classification)
  with auth have cls: "classification (authorization e)
         = (if policies (authorization e) \<noteq> [] then PolicyRestricted
            else if roles (authorization e) \<noteq> [] then RoleRestricted
            else Authenticated)"
    by (simp add: determineClassification_def)
  then have np: "classification (authorization e) \<noteq> Public"
    by simp
  have r1: "AP001_evaluate e = []" using pub by (simp add: AP001_evaluate_def)
  have r4: "AP004_evaluate e = []" using pub by (simp add: AP004_evaluate_def)
  have r7: "AP007_evaluate e = []" using np by (simp add: AP007_evaluate_def)
  have r8: "AP008_evaluate e = []" using pub by (simp add: AP008_evaluate_def)
  have r2: "AP002_evaluate e =
         (if isWriteMethod (method e)
          then [createFinding ''AP002'' ''AllowAnonymous on write operation'' High
                  (method_route e @ '' is a write operation explicitly marked as public'')
                  e (location e) (AP002_recommendation e)]
          else [])"
    using pub by (simp add: AP002_evaluate_def)
  have r3: "AP003_evaluate e =
         [createFinding ''AP003'' ''Controller/action authorization conflict'' Medium
              (method_route e @ '' has @Public overriding class-level guards'')
              e (location e) AP003_recommendation]"
    using pub auth a(2) by (simp add: AP003_evaluate_def)
  have ev: "engine_evaluate (initializeRules None) [e] =
         (if isWriteMethod (method e)
          then [createFinding ''AP002'' ''AllowAnonymous on write operation'' High
                  (method_route e @ '' is a write operation explicitly marked as public'')
                  e (location e) (AP002_recommendation e)]
          else [])
         @ [createFinding ''AP003'' ''Controller/action authorization conflict'' Medium
              (method_route e @ '' has @Public overriding class-level guards'')
              e (location e) AP003_recommendation]
         @ AP005_evaluate e @ AP006_evaluate e"
    unfolding initializeRules_default engine_evaluate_single r1 r4 r7 r8 r2 r3 by simp
  have r56: "AP005_evaluate e = [] \<and> AP006_evaluate e = []" if "roles (authorization e) = []"
    using that by (simp add: AP005_evaluate_def AP006_evaluate_def maxRoles_def)
  have ids: "map (\<lambda>f. (ruleId f, severity f)) (engine_evaluate (initializeRules None) [e])
            = (if isWriteMethod (method e)
               then [(''AP002'', High), (''AP003'', Medium)]
               else [(''AP003'', Medium)])"
    if "roles (authorization e) = []"
    unfolding ev using r56[OF that] by (simp add: createFinding_def)
  from mem pub auth cls np r1 r4 r7 r8 ev ids show ?thesis by blast
qed

text \<open>
  Witness for claim C4: the class \<^verbatim>\<open>@Controller('protected') @UseGuards(JwtAuthGuard)\<close>
  with the method \<^verbatim>\<open>@Public() @Get('feedback')\<close> gives one endpoint, authenticated and
  explicitly public, classified Authenticated, and the only finding is AP003 (Medium).
\<close>

theorem guarded_class_public_method_witness:
  "map (\<lambda>e. (method e, isAuthenticated (authorization e), isExplicitlyPublic (authorization e),
              classification (authorization e)))
       (processClass (guarded_controller get_feedback) ''src/app.controller.ts'')
     = [(GET, True, True, Authenticated)]
   \<and> map (\<lambda>f. (ruleId f, severity f))
       (engine_evaluate (initializeRules None)
          (processClass (guarded_controller get_feedback) ''src/app.controller.ts''))
     = [(''AP003'', Medium)]"
proof -
  let ?c = "guarded_controller get_feedback"
  let ?cd = "CallExpression (Identifier ''Controller'') [StringLiteral ''protected'']"
  let ?pm = "processMethod (public_method get_feedback) ''src/app.controller.ts''
               (extractControllerPath ?cd)
               (case class_name ?c of None \<Rightarrow> ''UnknownController'' | Some n \<Rightarrow> n)
               (extractClassAuthInfo (class_decorators ?c))"
  let ?e = "the ?pm"
  have h1: "has_identifier_auth_guard (class_decorators ?c)" by code_simp
  have h2: "public_method get_feedback \<in> set (members ?c)"
    by (simp add: guarded_controller_def)
  have h3: "list_ex is_public_decorator (method_decorators (public_method get_feedback))"
    by code_simp
  have h4: "find (\<lambda>d. getDecoratorName d = Some ''Controller'') (class_decorators ?c) = Some ?cd"
    by code_simp
  have h5: "?pm = Some ?e" by code_simp
  have r: "roles (authorization ?e) = []" by code_simp
  have p: "policies (authorization ?e) = []" by code_simp
  have m: "method ?e = GET" by code_simp
  have pc: "processClass ?c ''src/app.controller.ts'' = [?e]"
    by code_simp
  note T = guarded_class_public_method[OF h1 h2 h3 h4 h5]
  from T have a: "isExplicitlyPublic (authorization ?e)" "isAuthenticated (authorization ?e)"
    by blast+
  from T have "classification (authorization ?e)
         = (if policies (authorization ?e) \<noteq> [] then PolicyRestricted
            else if roles (authorization ?e) \<noteq> [] then RoleRestricted
            else Authenticated)"
    by blast
  with r p have cl: "classification (authorization ?e) = Authenticated"
    by simp
  from T r have "map (\<lambda>f. (ruleId f, severity f)) (engine_evaluate (initializeRules None) [?e])
            = (if isWriteMethod (method ?e)
               then [(''AP002'', High), (''AP003'', Medium)]
               else [(''AP003'', Medium)])"
    by blast
  then have b: "map (\<lambda>f. (ruleId f, severity f)) (engine_evaluate (initializeRules None) [?e])
                    = [(''AP003'', Medium)]"
    by (simp add: m isWriteMethod_def writeMethods_def)
  show ?thesis unfolding pc using a b cl m by simp
qed

text \<open>
  Counterexamples to claim C4 as stated. The class
  \<^verbatim>\<open>@Controller('protected') @UseGuards(JwtAuthGuard)\<close> with other methods: with
  \<^verbatim>\<open>@Public() @Post('feedback')\<close> the class carries an auth guard, the method carries a
  public marker, the authorization is authenticated, explicitly public and classified
  Authenticated, and there are two findings: AP002 (High), since POST is a write method
  that is explicitly public, and AP003. With \<^verbatim>\<open>@Public() @Roles('admin') @Get('feedback')\<close>
  the classification is RoleRestricted, and AP006 fires beside AP003. And the class of the
  repository's sample, \<^verbatim>\<open>@Controller('protected') @UseGuards(AuthGuard('jwt'))\<close> with the
  method \<^verbatim>\<open>@Public() @Get('semi-public')\<close>: the class-level guard is a call, no class-level
  guard name is collected, the authorization is not authenticated, the classification is
  Public, and there is no finding at all, where the sample's comment expects AP003.
\<close>

theorem public_write_method_two_findings:
  "map (\<lambda>e. (method e, isAuthenticated (authorization e), isExplicitlyPublic (authorization e),
              classification (authorization e)))
       (processClass (guarded_controller post_feedback) ''src/app.controller.ts'')
     = [(POST, True, True, Authenticated)]
   \<and> map (\<lambda>f. (ruleId f, severity f))
       (engine_evaluate (initializeRules None)
          (processClass (guarded_controller post_feedback) ''src/app.controller.ts''))
     = [(''AP002'', High), (''AP003'', Medium)]
   \<and> map (\<lambda>e. (method e, isAuthenticated (authorization e), isExplicitlyPublic (authorization e),
              classification (authorization e)))
       (processClass (guarded_controller roles_get_feedback) ''src/app.controller.ts'')
     = [(GET, True, True, RoleRestricted)]
   \<and> map (\<lambda>f. (ruleId f, severity f))
       (engine_evaluate (initializeRules None)
          (processClass (guarded_controller roles_get_feedback) ''src/app.controller.ts''))
     = [(''AP003'', Medium), (''AP006'', Low)]
   \<and> guards (extractClassAuthInfo (class_decorators sample_protected_controller)) = []
   \<and> map (\<lambda>e. (method e, isAuthenticated (authorization e), isExplicitlyPublic (authorization e),
              classification (authorization e)))
       (processClass sample_protected_controller ''src/app.controller.ts'')
     = [(GET, False, True, Public)]
   \<and> engine_evaluate (initializeRules None)
        (processClass sample_protected_controller ''src/app.controller.ts'')
     = []"
  by code_simp


section \<open>Guard names by level\<close>

text \<open>
  Claim C8, as the code has it. Guard names are handled differently at the two levels. Of
  a method-level \<^verbatim>\<open>@UseGuards\<close>, every identifier argument contributes its text and every
  call argument whose callee is an identifier contributes the callee's text to
  \<open>guardNames\<close>, whether or not the name matches an auth-guard pattern (any other argument
  contributes nothing), and \<open>isAuthenticated\<close> is set only when a contributed name
  matches. A class-level guard name is kept only when it matches: the guard names of an
  extraction are the matching class-level guards followed by the method-level names. So
  for a guard name that matches no pattern, given at class level, \<open>guardNames\<close> is empty
  and AP001 and AP008 fire; given at method level, it is in \<open>guardNames\<close> and neither
  rule fires.
\<close>

theorem guard_names_by_level:
  "guardNames (processDecorator (CallExpression (Identifier ''UseGuards'') args) auth)
     = guardNames auth @ method_guard_names args
   \<and> isAuthenticated (processDecorator (CallExpression (Identifier ''UseGuards'') args) auth)
       = (isAuthenticated auth \<or> list_ex isAuthGuard (method_guard_names args))
   \<and> method_guard_names (Identifier t # rest) = t # method_guard_names rest
   \<and> method_guard_names (CallExpression (Identifier t) cargs # rest) = t # method_guard_names rest
   \<and> guardNames (nestjs_extract ds (Some \<lparr> classGuards = Some gs, classRoles = cr, isPublic = ip \<rparr>))
       = filter isAuthGuard gs @ concat (map decorator_guard_names ds)
   \<and> (\<not> isAuthGuard g \<longrightarrow>
        guardNames (nestjs_extract [] (Some (guards_context [g]))) = []
        \<and> map ruleId (AP001_evaluate (nest_endpoint (nestjs_extract [] (Some (guards_context [g]))))
                      @ AP008_evaluate (nest_endpoint (nestjs_extract [] (Some (guards_context [g])))))
            = [''AP001'', ''AP008'']
        \<and> guardNames (nestjs_extract [CallExpression (Identifier ''UseGuards'') [Identifier g]]
                        (Some (guards_context [])))
            = [g]
        \<and> AP001_evaluate (nest_endpoint
              (nestjs_extract [CallExpression (Identifier ''UseGuards'') [Identifier g]]
                 (Some (guards_context [])))) = []
        \<and> AP008_evaluate (nest_endpoint
              (nestjs_extract [CallExpression (Identifier ''UseGuards'') [Identifier g]]
                 (Some (guards_context [])))) = [])"
proof -
  have 1: "guardNames (processDecorator (CallExpression (Identifier ''UseGuards'') args) auth)
             = guardNames auth @ method_guard_names args"
    by (simp add: processDecorator_guardNames decorator_guard_names_def)
  have 2: "isAuthenticated (processDecorator (CallExpression (Identifier ''UseGuards'') args) auth)
             = (isAuthenticated auth \<or> list_ex isAuthGuard (method_guard_names args))"
    by (simp add: processDecorator_def truthy_def UseGuards_not_other guard_args_fields)
  have 3: "method_guard_names (Identifier t # rest) = t # method_guard_names rest"
    "method_guard_names (CallExpression (Identifier t) cargs # rest) = t # method_guard_names rest"
    by (simp_all add: method_guard_names_def)
  have 4: "guardNames (nestjs_extract ds (Some \<lparr> classGuards = Some gs, classRoles = cr, isPublic = ip \<rparr>))
       = filter isAuthGuard gs @ concat (map decorator_guard_names ds)"
    by (rule extract_guardNames)
  have 5: "nestjs_extract [] (Some (guards_context [g])) = createDefaultAuthorizationInfo"
    if "\<not> isAuthGuard g"
    using that
    by (simp add: nestjs_extract_def guards_context_def class_guard_def Let_def
          createDefaultAuthorizationInfo_def determineClassification_def)
  have 6: "nestjs_extract [CallExpression (Identifier ''UseGuards'') [Identifier g]]
             (Some (guards_context []))
           = createDefaultAuthorizationInfo\<lparr>guardNames := [g]\<rparr>"
    if "\<not> isAuthGuard g"
    using that
    by (simp add: nestjs_extract_def guards_context_def Let_def processDecorator_def truthy_def
          UseGuards_not_other push_guard_def is_public_decorator_def
          createDefaultAuthorizationInfo_def determineClassification_def)
  have 7: "map ruleId (AP001_evaluate (nest_endpoint createDefaultAuthorizationInfo)
                      @ AP008_evaluate (nest_endpoint createDefaultAuthorizationInfo))
            = [''AP001'', ''AP008'']"
    by (simp add: AP001_evaluate_def AP008_evaluate_def nest_endpoint_def createEndpoint_def
          createDefaultAuthorizationInfo_def createFinding_def Let_def)
  have 8: "AP001_evaluate (nest_endpoint (createDefaultAuthorizationInfo\<lparr>guardNames := [g]\<rparr>)) = []"
    "AP008_evaluate (nest_endpoint (createDefaultAuthorizationInfo\<lparr>guardNames := [g]\<rparr>)) = []"
    by (simp_all add: AP001_evaluate_def AP008_evaluate_def nest_endpoint_def createEndpoint_def
          createDefaultAuthorizationInfo_def Let_def)
  from 1 2 3 4 5 6 7 8 show ?thesis
    by (simp add: createDefaultAuthorizationInfo_def)
qed

text \<open>
  Witness for claim C8: \<open>ThrottlerGuard\<close> matches no auth-guard pattern. As the only
  class-level guard it leaves \<open>guardNames\<close> empty, and AP001 and AP008 fire; as the
  argument of a method-level \<^verbatim>\<open>@UseGuards\<close> it is the only guard name, and neither fires.
\<close>

theorem guard_names_by_level_witness:
  "\<not> isAuthGuard ''ThrottlerGuard''
   \<and> guardNames (nestjs_extract [] (Some (guards_context [''ThrottlerGuard'']))) = []
   \<and> map ruleId
       (AP001_evaluate (nest_endpoint (nestjs_extract [] (Some (guards_context [''ThrottlerGuard'']))))
        @ AP008_evaluate (nest_endpoint (nestjs_extract [] (Some (guards_context [''ThrottlerGuard''])))))
       = [''AP001'', ''AP008'']
   \<and> guardNames (nestjs_extract [CallExpression (Identifier ''UseGuards'') [Identifier ''ThrottlerGuard'']]
                   (Some (guards_context [])))
       = [''ThrottlerGuard'']
   \<and> AP001_evaluate (nest_endpoint
         (nestjs_extract [CallExpression (Identifier ''UseGuards'') [Identifier ''ThrottlerGuard'']]
            (Some (guards_context [])))) = []
   \<and> AP008_evaluate (nest_endpoint
         (nestjs_extract [CallExpression (Identifier ''UseGuards'') [Identifier ''ThrottlerGuard'']]
            (Some (guards_context [])))) = []"
proof -
  have h: "\<not> isAuthGuard ''ThrottlerGuard''" by code_simp
  from h guard_names_by_level[where g = "''ThrottlerGuard''" and args = "[]" and ds = "[]"
          and gs = "[]"]
  show ?thesis by blast
qed

text \<open>
  Counterexample to claim C8 as stated: the method-level decorator
  \<^verbatim>\<open>@UseGuards(passport.AuthGuard('jwt'))\<close>. Its argument is a call expression, whose callee
  is a property access and not an identifier: nothing is appended to \<open>guardNames\<close>, and
  \<open>isAuthenticated\<close> is not set.
\<close>

theorem member_call_guard_not_recorded:
  "guardNames
     (processDecorator
        (CallExpression (Identifier ''UseGuards'')
           [CallExpression (PropertyAccessExpression (Identifier ''passport'') ''AuthGuard'')
              [StringLiteral ''jwt'']])
        createDefaultAuthorizationInfo) = []
   \<and> isAuthenticated
       (processDecorator
          (CallExpression (Identifier ''UseGuards'')
             [CallExpression (PropertyAccessExpression (Identifier ''passport'') ''AuthGuard'')
                [StringLiteral ''jwt'']])
          createDefaultAuthorizationInfo) = False"
  by code_simp


section \<open>Suppressions\<close>

lemma apply_length: "length (applySuppressionsToFindings sups fs) = length fs"
  by (simp add: applySuppressionsToFindings_def)

lemma apply_nth:
  "i < length fs \<Longrightarrow>
   applySuppressionsToFindings sups fs ! i =
     (case findMatchingSuppression sups (fs ! i) of
        Some s \<Rightarrow> (fs ! i)\<lparr>suppressed := True, suppressionReason := Some (reason s)\<rparr>
      | None \<Rightarrow> fs ! i)"
  by (simp add: applySuppressionsToFindings_def)

lemma no_filter_matches:
  "sup_ruleId s = None \<Longrightarrow> sup_route s = None \<Longrightarrow> sup_routePattern s = None
     \<Longrightarrow> sup_method s = None \<Longrightarrow> matchesEndpoint s ep rid"
  by (simp add: matchesEndpoint_def truthy_def)

lemma find_first_match:
  "\<forall>p \<in> set pre. \<not> P p \<Longrightarrow> P s \<Longrightarrow> find P (pre @ s # post) = Some s"
  by (induction pre) auto

lemma find_member_Some: "s \<in> set sups \<Longrightarrow> P s \<Longrightarrow> \<exists>s'. find P sups = Some s'"
  by (induction sups) auto

lemma sample_findings_eval:
  "length sample_findings = 2
   \<and> route (endpoint (sample_findings ! 0)) = ''/api/health''
   \<and> route (endpoint (sample_findings ! 1)) = ''/api/products''"
  by (simp add: sample_findings_def get_endpoint_def AP001_evaluate_def createEndpoint_def
        createDefaultAuthorizationInfo_def createFinding_def Let_def)

lemma find_append_match:
  "P s \<Longrightarrow> find P (pre @ s # post) = (case find P pre of Some p \<Rightarrow> Some p | None \<Rightarrow> Some s)"
  by (induction pre) auto

text \<open>
  Claim C9, as the code has it. A suppression whose optional filters are all absent
  matches every endpoint, rule and finding. When it is in the list of the matcher, every
  finding of the run comes back suppressed. Finding by finding, the first match wins: a
  finding that an earlier suppression of the list matches carries the reason of the
  first such suppression, and a finding that no earlier suppression matches carries the
  reason of the suppression with no filter, whatever the other findings of the run are.
  When the suppression is the first of the list, every finding carries its reason.
\<close>

theorem no_filter_suppresses_all:
  assumes "sup_ruleId s = None" and "sup_route s = None" and "sup_routePattern s = None"
    and "sup_method s = None"
  shows "matchesEndpoint s ep rid
     \<and> matchesFinding s f
     \<and> (s \<in> set sups \<longrightarrow>
          length (applySuppressionsToFindings sups fs) = length fs
          \<and> list_all suppressed (applySuppressionsToFindings sups fs))
     \<and> applySuppressionsToFindings (s # post) fs
         = map (\<lambda>f. f\<lparr>suppressed := True, suppressionReason := Some (reason s)\<rparr>) fs
     \<and> applySuppressionsToFindings (pre @ s # post) fs
         = map (\<lambda>f. case find (\<lambda>p. matchesFinding p f) pre of
                        Some p \<Rightarrow> f\<lparr>suppressed := True, suppressionReason := Some (reason p)\<rparr>
                      | None \<Rightarrow> f\<lparr>suppressed := True, suppressionReason := Some (reason s)\<rparr>) fs
     \<and> (\<forall>i < length fs.
           (\<forall>p \<in> set pre. \<not> matchesFinding p (fs ! i)) \<longrightarrow>
           applySuppressionsToFindings (pre @ s # post) fs ! i
             = (fs ! i)\<lparr>suppressed := True, suppressionReason := Some (reason s)\<rparr>)
     \<and> ((\<forall>p \<in> set pre. \<forall>f \<in> set fs. \<not> matchesFinding p f) \<longrightarrow>
          applySuppressionsToFindings (pre @ s # post) fs
            = map (\<lambda>f. f\<lparr>suppressed := True, suppressionReason := Some (reason s)\<rparr>) fs)"
proof -
  have m: "matchesFinding s g" for g
    using assms by (simp add: matchesFinding_def no_filter_matches)
  have 1: "matchesEndpoint s ep rid"
    using assms by (rule no_filter_matches)
  have 2: "list_all suppressed (applySuppressionsToFindings sups fs)" if "s \<in> set sups"
  proof -
    have "suppressed g'" if "g' \<in> set (applySuppressionsToFindings sups fs)" for g'
    proof -
      from that obtain g where g: "g \<in> set fs"
        "g' = (case findMatchingSuppression sups g of
                 Some s' \<Rightarrow> g\<lparr>suppressed := True, suppressionReason := Some (reason s')\<rparr>
               | None \<Rightarrow> g)"
        by (auto simp: applySuppressionsToFindings_def)
      from \<open>s \<in> set sups\<close> m[of g] obtain s' where "findMatchingSuppression sups g = Some s'"
        unfolding findMatchingSuppression_def using find_member_Some by fastforce
      with g show ?thesis by simp
    qed
    then show ?thesis by (simp add: list_all_iff)
  qed
  have f: "findMatchingSuppression (before @ s # post) g
             = (case find (\<lambda>p. matchesFinding p g) before of Some p \<Rightarrow> Some p | None \<Rightarrow> Some s)"
    for before g
    unfolding findMatchingSuppression_def using m[of g] by (rule find_append_match)
  have 5: "applySuppressionsToFindings (before @ s # post) fs
         = map (\<lambda>f. case find (\<lambda>p. matchesFinding p f) before of
                        Some p \<Rightarrow> f\<lparr>suppressed := True, suppressionReason := Some (reason p)\<rparr>
                      | None \<Rightarrow> f\<lparr>suppressed := True, suppressionReason := Some (reason s)\<rparr>) fs"
    for before
    by (auto simp: applySuppressionsToFindings_def f split: option.splits)
  have n: "find (\<lambda>p. matchesFinding p g) pre = None" if "\<forall>p \<in> set pre. \<not> matchesFinding p g" for g
    using that by (simp add: find_None_iff)
  have 6: "applySuppressionsToFindings (pre @ s # post) fs ! i
             = (fs ! i)\<lparr>suppressed := True, suppressionReason := Some (reason s)\<rparr>"
    if "i < length fs" "\<forall>p \<in> set pre. \<not> matchesFinding p (fs ! i)" for i
    using that by (simp add: 5 n)
  have 3: "applySuppressionsToFindings (pre @ s # post) fs
            = map (\<lambda>f. f\<lparr>suppressed := True, suppressionReason := Some (reason s)\<rparr>) fs"
    if "\<forall>p \<in> set pre. \<forall>f \<in> set fs. \<not> matchesFinding p f"
    using that by (simp add: 5 n)
  have 4: "applySuppressionsToFindings (s # post) fs
         = map (\<lambda>f. f\<lparr>suppressed := True, suppressionReason := Some (reason s)\<rparr>) fs"
    using 5[of "[]"] by simp
  from 1 2 3 4 5[of pre] 6 m[of f] show ?thesis by (simp add: apply_length)
qed

text \<open>
  Witness for claim C9: the suppression with the only field \<^verbatim>\<open>reason: "accepted risk"\<close>.
  Alone in the list it marks both sample findings suppressed with its reason. After the
  suppression of \<^verbatim>\<open>/api/health\<close>, on the run of both sample findings, both come back
  suppressed: the finding on \<^verbatim>\<open>/api/products\<close>, which the earlier suppression does not
  match, carries the reason \<^verbatim>\<open>accepted risk\<close>, and the finding on \<^verbatim>\<open>/api/health\<close>, which
  it matches, carries the reason \<^verbatim>\<open>intentional\<close>.
\<close>

theorem no_filter_suppresses_all_witness:
  "applySuppressionsToFindings [catch_all ''accepted risk''] sample_findings
     = map (\<lambda>f. f\<lparr>suppressed := True, suppressionReason := Some ''accepted risk''\<rparr>) sample_findings
   \<and> list_all suppressed
       (applySuppressionsToFindings [health_suppression, catch_all ''accepted risk''] sample_findings)
   \<and> \<not> matchesFinding health_suppression (sample_findings ! 1)
   \<and> applySuppressionsToFindings [health_suppression, catch_all ''accepted risk'']
        sample_findings ! 1
       = (sample_findings ! 1)\<lparr>suppressed := True, suppressionReason := Some ''accepted risk''\<rparr>
   \<and> matchesFinding health_suppression (sample_findings ! 0)
   \<and> applySuppressionsToFindings [health_suppression, catch_all ''accepted risk'']
        sample_findings ! 0
       = (sample_findings ! 0)\<lparr>suppressed := True, suppressionReason := Some ''intentional''\<rparr>"
proof -
  have h: "sup_ruleId (catch_all ''accepted risk'') = None"
    "sup_route (catch_all ''accepted risk'') = None"
    "sup_routePattern (catch_all ''accepted risk'') = None"
    "sup_method (catch_all ''accepted risk'') = None"
    by (simp_all add: catch_all_def)
  have r: "reason (catch_all ''accepted risk'') = ''accepted risk''"
    "reason health_suppression = ''intentional''"
    by (simp_all add: catch_all_def health_suppression_def)
  have l: "length sample_findings = 2" "(0::nat) < 2" "(1::nat) < 2"
    using sample_findings_eval by simp_all
  have n1: "\<not> matchesFinding health_suppression (sample_findings ! 1)"
    using sample_findings_eval
    by (simp add: matchesFinding_def matchesEndpoint_def health_suppression_def truthy_def)
  have n0: "matchesFinding health_suppression (sample_findings ! 0)"
    using sample_findings_eval
    by (simp add: matchesFinding_def matchesEndpoint_def health_suppression_def truthy_def)
  have i: "catch_all ''accepted risk'' \<in> set [health_suppression, catch_all ''accepted risk'']"
    by simp
  note T1 = no_filter_suppresses_all[OF h, where post = "[]" and fs = sample_findings
              and sups = "[health_suppression, catch_all ''accepted risk'']"]
  note T2 = no_filter_suppresses_all[OF h, where pre = "[health_suppression]" and post = "[]"
              and fs = sample_findings]
  from T1 r have a: "applySuppressionsToFindings [catch_all ''accepted risk''] sample_findings
     = map (\<lambda>f. f\<lparr>suppressed := True, suppressionReason := Some ''accepted risk''\<rparr>) sample_findings"
    by simp
  from T1 i have b: "list_all suppressed
       (applySuppressionsToFindings [health_suppression, catch_all ''accepted risk''] sample_findings)"
    by blast
  from T2 have "\<forall>i < length sample_findings.
           (\<forall>p \<in> set [health_suppression]. \<not> matchesFinding p (sample_findings ! i)) \<longrightarrow>
           applySuppressionsToFindings ([health_suppression] @ catch_all ''accepted risk'' # [])
               sample_findings ! i
             = (sample_findings ! i)\<lparr>suppressed := True,
                  suppressionReason := Some (reason (catch_all ''accepted risk''))\<rparr>"
    by blast
  with l n1 r have c: "applySuppressionsToFindings [health_suppression, catch_all ''accepted risk'']
        sample_findings ! 1
       = (sample_findings ! 1)\<lparr>suppressed := True, suppressionReason := Some ''accepted risk''\<rparr>"
    by simp
  from T2 have "applySuppressionsToFindings ([health_suppression] @ catch_all ''accepted risk'' # [])
        sample_findings
         = map (\<lambda>f. case find (\<lambda>p. matchesFinding p f) [health_suppression] of
                        Some p \<Rightarrow> f\<lparr>suppressed := True, suppressionReason := Some (reason p)\<rparr>
                      | None \<Rightarrow> f\<lparr>suppressed := True,
                                 suppressionReason := Some (reason (catch_all ''accepted risk''))\<rparr>)
               sample_findings"
    by blast
  with l n0 r have d: "applySuppressionsToFindings [health_suppression, catch_all ''accepted risk'']
        sample_findings ! 0
       = (sample_findings ! 0)\<lparr>suppressed := True, suppressionReason := Some ''intentional''\<rparr>"
    by simp
  from a b c d n0 n1 show ?thesis by simp
qed

text \<open>
  Counterexample to claim C9 as stated: the list of the suppression of \<^verbatim>\<open>/api/health\<close>
  (reason \<^verbatim>\<open>intentional\<close>) followed by a suppression with no filter (reason
  \<^verbatim>\<open>accepted risk\<close>). The second has no filter, is in the list and matches the finding on
  \<^verbatim>\<open>/api/health\<close>; that finding comes back with the reason \<^verbatim>\<open>intentional\<close>, not with the
  reason of the suppression with no filter.
\<close>

theorem earlier_suppression_gives_reason:
  "sup_ruleId (catch_all ''accepted risk'') = None
   \<and> sup_route (catch_all ''accepted risk'') = None
   \<and> sup_routePattern (catch_all ''accepted risk'') = None
   \<and> sup_method (catch_all ''accepted risk'') = None
   \<and> matchesFinding (catch_all ''accepted risk'') (sample_findings ! 0)
   \<and> suppressionReason
        (applySuppressionsToFindings [health_suppression, catch_all ''accepted risk'']
           sample_findings ! 0)
       = Some ''intentional''
   \<and> suppressionReason
        (applySuppressionsToFindings [health_suppression, catch_all ''accepted risk'']
           sample_findings ! 0)
       \<noteq> Some (reason (catch_all ''accepted risk''))"
  by code_simp


text \<open>
  Claim C10. \<open>applySuppressionsToFindings\<close> returns a list of the same length and in the
  same order as its input: at every position the output finding agrees with the input
  finding on every field but \<open>suppressed\<close> and \<open>suppressionReason\<close>, and a finding that no
  suppression matches is returned unchanged.
\<close>

theorem suppression_frame:
  "length (applySuppressionsToFindings sups fs) = length fs
   \<and> (\<forall>i < length fs.
        ruleId (applySuppressionsToFindings sups fs ! i) = ruleId (fs ! i)
        \<and> ruleName (applySuppressionsToFindings sups fs ! i) = ruleName (fs ! i)
        \<and> severity (applySuppressionsToFindings sups fs ! i) = severity (fs ! i)
        \<and> message (applySuppressionsToFindings sups fs ! i) = message (fs ! i)
        \<and> endpoint (applySuppressionsToFindings sups fs ! i) = endpoint (fs ! i)
        \<and> finding_location (applySuppressionsToFindings sups fs ! i) = finding_location (fs ! i)
        \<and> recommendation (applySuppressionsToFindings sups fs ! i) = recommendation (fs ! i)
        \<and> applySuppressionsToFindings sups fs ! i =
            (fs ! i)\<lparr>suppressed := suppressed (applySuppressionsToFindings sups fs ! i),
                     suppressionReason := suppressionReason (applySuppressionsToFindings sups fs ! i)\<rparr>
        \<and> (findMatchingSuppression sups (fs ! i) = None
             \<longrightarrow> applySuppressionsToFindings sups fs ! i = fs ! i))"
  by (auto simp: apply_length apply_nth split: option.splits)

text \<open>
  Witness for claim C10: the suppression \<^verbatim>\<open>{route: "/api/health", reason: "intentional"}\<close>
  on the two sample findings. The finding on \<^verbatim>\<open>/api/products\<close> is matched by no
  suppression and comes back unchanged; the finding on \<^verbatim>\<open>/api/health\<close> keeps its rule and
  endpoint and comes back suppressed with the reason \<^verbatim>\<open>intentional\<close>.
\<close>

theorem suppression_frame_witness:
  "length (applySuppressionsToFindings [health_suppression] sample_findings) = 2
   \<and> findMatchingSuppression [health_suppression] (sample_findings ! 1) = None
   \<and> applySuppressionsToFindings [health_suppression] sample_findings ! 1 = sample_findings ! 1
   \<and> findMatchingSuppression [health_suppression] (sample_findings ! 0) = Some health_suppression
   \<and> ruleId (applySuppressionsToFindings [health_suppression] sample_findings ! 0) = ''AP001''
   \<and> endpoint (applySuppressionsToFindings [health_suppression] sample_findings ! 0)
       = get_endpoint ''/api/health''
   \<and> suppressed (applySuppressionsToFindings [health_suppression] sample_findings ! 0) = True
   \<and> suppressionReason (applySuppressionsToFindings [health_suppression] sample_findings ! 0)
       = Some ''intentional''"
proof -
  have l: "length sample_findings = 2" "(0::nat) < 2" "(1::nat) < 2"
    using sample_findings_eval by simp_all
  have m1: "findMatchingSuppression [health_suppression] (sample_findings ! 1) = None"
    using sample_findings_eval
    by (simp add: findMatchingSuppression_def matchesFinding_def matchesEndpoint_def
          health_suppression_def truthy_def)
  have m0: "findMatchingSuppression [health_suppression] (sample_findings ! 0) = Some health_suppression"
    using sample_findings_eval
    by (simp add: findMatchingSuppression_def matchesFinding_def matchesEndpoint_def
          health_suppression_def truthy_def)
  have f0: "ruleId (sample_findings ! 0) = ''AP001''"
    "endpoint (sample_findings ! 0) = get_endpoint ''/api/health''"
    by (simp_all add: sample_findings_def get_endpoint_def AP001_evaluate_def createEndpoint_def
        createDefaultAuthorizationInfo_def createFinding_def Let_def)
  have s0: "applySuppressionsToFindings [health_suppression] sample_findings ! 0
              = (sample_findings ! 0)\<lparr>suppressed := True, suppressionReason := Some ''intentional''\<rparr>"
    using l m0 by (simp add: apply_nth health_suppression_def)
  note T = suppression_frame[of "[health_suppression]" sample_findings]
  from T l m1
  have t1: "applySuppressionsToFindings [health_suppression] sample_findings ! 1 = sample_findings ! 1"
    by auto
  from T l
  have t0: "ruleId (applySuppressionsToFindings [health_suppression] sample_findings ! 0)
              = ruleId (sample_findings ! 0)"
    "endpoint (applySuppressionsToFindings [health_suppression] sample_findings ! 0)
       = endpoint (sample_findings ! 0)"
    by auto
  from T l have t2: "length (applySuppressionsToFindings [health_suppression] sample_findings) = 2"
    by simp
  from t0 t1 t2 m0 m1 f0 s0 show ?thesis by simp
qed

end
